theory Spec2Isabelle
  imports Complex_Main "HOL-Library.Word"
begin

section \<open>Machine types, failures, containers\<close>

text \<open>
  The generic B-spline engine of \<^verbatim>\<open>spline_library/splines/generic_b_spline.h\<close>.

  \<^item> \<^verbatim>\<open>size_t\<close> is a 64-bit word: subtraction wraps, as in
    \<^verbatim>\<open>positions.size() - splineDegree\<close> and \<^verbatim>\<open>knotIndex - 1\<close>.
  \<^item> \<^verbatim>\<open>int\<close> values (degrees, derivative levels, paddings) are HOL integers; an
    \<^verbatim>\<open>int\<close> used where a \<^verbatim>\<open>size_t\<close> is expected is converted with \<open>of_int\<close>, which is the
    sign-extending conversion of C++. The recursions only decrement a degree or a level
    that is not negative, and the theorems on the constructors bound the number of
    control points, so no \<^verbatim>\<open>int\<close> of the program overflows where a theorem speaks.
  \<^item> \<^verbatim>\<open>floating_t\<close> is idealised as \<open>real\<close>. A division whose divisor is zero has no real
    value (IEEE arithmetic yields an infinity or a NaN there), so it is the failure
    \<open>DivisionByZero\<close>.
  \<^item> \<^verbatim>\<open>InterpolationType\<close> is any real vector space; \<^verbatim>\<open>InterpolationType()\<close> is its zero and
    \<^verbatim>\<open>length()\<close> its norm.
  \<^item> \<^verbatim>\<open>std::vector::operator[]\<close> outside the vector is the failure \<open>OutOfBounds\<close>.
\<close>

type_synonym size_t = "64 word"

datatype error = OutOfBounds | DivisionByZero | UnboundedRecursion | AssertionFailed

definition vector_at :: "'a list \<Rightarrow> size_t \<Rightarrow> error + 'a" where
  "vector_at xs i = (if unat i < length xs then Inr (xs ! unat i) else Inl OutOfBounds)"

definition vector_set :: "'a list \<Rightarrow> size_t \<Rightarrow> 'a \<Rightarrow> error + 'a list" where
  "vector_set xs i v = (if unat i < length xs then Inr (xs[unat i := v]) else Inl OutOfBounds)"

definition float_div :: "real \<Rightarrow> real \<Rightarrow> error + real" where
  "float_div x y = (if y = 0 then Inl DivisionByZero else Inr (x / y))"

text \<open>Failures propagate: the first failing step decides the result.\<close>

definition and_then :: "error + 'a \<Rightarrow> ('a \<Rightarrow> error + 'b) \<Rightarrow> error + 'b" where
  "and_then m f = (case m of Inl e \<Rightarrow> Inl e | Inr v \<Rightarrow> f v)"

lemma and_then_cong [fundef_cong]:
  "m = m' \<Longrightarrow> (\<And>v. m' = Inr v \<Longrightarrow> f v = f' v) \<Longrightarrow> and_then m f = and_then m' f'"
  by (simp add: and_then_def split: sum.splits)

lemma and_then_Inr [simp]: "and_then (Inr v) f = f v"
  by (simp add: and_then_def)

lemma and_then_Inl [simp]: "and_then (Inl e) f = Inl e"
  by (simp add: and_then_def)

text \<open>The narrowing conversion of \<^verbatim>\<open>int size = points.size()\<close>.\<close>

definition int_of_size_t :: "size_t \<Rightarrow> int" where
  "int_of_size_t w = sint (ucast w :: 32 word)"

section \<open>GenericBSplineCommon\<close>

record 'v GenericBSplineCommon =
  positions :: "'v list"
  knots :: "real list"
  splineDegree :: int

text \<open>
  The result tuples of \<^verbatim>\<open>Spline<InterpolationType,floating_t>\<close>; their declarations are in
  \<^verbatim>\<open>spline.h\<close>, and the constructors used here fix the order of the components.
\<close>

record 'v InterpolatedPT =
  position :: 'v
  tangent :: 'v

record 'v InterpolatedPTC = "'v InterpolatedPT" +
  curvature :: 'v

record 'v InterpolatedPTCW = "'v InterpolatedPTC" +
  wiggle :: 'v

definition segmentCount :: "'v GenericBSplineCommon \<Rightarrow> size_t" where
  "segmentCount c = of_nat (length (positions c)) - of_int (splineDegree c)"

text \<open>
  \<^verbatim>\<open>SplineCommon::getIndexForT\<close> is not among the sources; the locator takes it as the
  parameter \<open>getIndexForT\<close>.
\<close>

definition segmentForT ::
  "(real list \<Rightarrow> real \<Rightarrow> size_t) \<Rightarrow> 'v GenericBSplineCommon \<Rightarrow> real \<Rightarrow> size_t" where
  "segmentForT getIndexForT c t =
    (if t < 0 then 0
     else
       let segmentIndex = getIndexForT (knots c) t - of_int (splineDegree c - 1)
       in if segmentIndex > segmentCount c - 1 then segmentCount c - 1 else segmentIndex)"

definition segmentT :: "'v GenericBSplineCommon \<Rightarrow> size_t \<Rightarrow> error + real" where
  "segmentT c segmentIndex = vector_at (knots c) (segmentIndex + of_int (splineDegree c) - 1)"

text \<open>
  The recursion ends at \<^verbatim>\<open>degree == 0\<close>. From a negative degree it never gets there; the
  model gives that case the failure \<open>UnboundedRecursion\<close>.
\<close>

function computeDeboor ::
  "('v::real_vector) GenericBSplineCommon \<Rightarrow> size_t \<Rightarrow> int \<Rightarrow> real \<Rightarrow> error + 'v" where
  "computeDeboor c knotIndex degree globalT =
    (if degree = 0 then vector_at (positions c) knotIndex
     else if degree < 0 then Inl UnboundedRecursion
     else
       and_then (vector_at (knots c) (knotIndex - 1)) (\<lambda>k0.
       and_then (vector_at (knots c) (knotIndex + of_int (splineDegree c) - of_int degree)) (\<lambda>k1.
       and_then (float_div (globalT - k0) (k1 - k0)) (\<lambda>alpha.
       and_then (computeDeboor c (knotIndex - 1) (degree - 1) globalT) (\<lambda>leftRecursive.
       and_then (computeDeboor c knotIndex (degree - 1) globalT) (\<lambda>rightRecursive.
         Inr ((1 - alpha) *\<^sub>R leftRecursive + alpha *\<^sub>R rightRecursive)))))))"
  by pat_completeness auto
termination
  by (relation "measure (\<lambda>(c, knotIndex, degree, globalT). nat degree)") auto

declare computeDeboor.simps [simp del]

function computeDeboorDerivative ::
  "('v::real_vector) GenericBSplineCommon \<Rightarrow> size_t \<Rightarrow> int \<Rightarrow> real \<Rightarrow> int \<Rightarrow> error + 'v" where
  "computeDeboorDerivative c knotIndex degree globalT derivativeLevel =
    (if degree = 0 then Inr 0
     else if degree < 0 then Inl UnboundedRecursion
     else
       and_then (vector_at (knots c) (knotIndex + of_int (splineDegree c) - of_int degree)) (\<lambda>k1.
       and_then (vector_at (knots c) (knotIndex - 1)) (\<lambda>k0.
       and_then (float_div (real_of_int degree) (k1 - k0)) (\<lambda>multiplier.
         if derivativeLevel \<le> 1 then
           and_then (computeDeboor c knotIndex (degree - 1) globalT) (\<lambda>r.
           and_then (computeDeboor c (knotIndex - 1) (degree - 1) globalT) (\<lambda>l.
             Inr (multiplier *\<^sub>R (r - l))))
         else
           and_then (computeDeboorDerivative c knotIndex (degree - 1) globalT
                       (derivativeLevel - 1)) (\<lambda>r.
           and_then (computeDeboorDerivative c (knotIndex - 1) (degree - 1) globalT
                       (derivativeLevel - 1)) (\<lambda>l.
             Inr (multiplier *\<^sub>R (r - l))))))))"
  by pat_completeness auto
termination
  by (relation "measure (\<lambda>(c, knotIndex, degree, globalT, derivativeLevel). nat degree)") auto

declare computeDeboorDerivative.simps [simp del]

definition getPosition ::
  "(real list \<Rightarrow> real \<Rightarrow> size_t) \<Rightarrow> ('v::real_vector) GenericBSplineCommon \<Rightarrow> real \<Rightarrow> error + 'v" where
  "getPosition getIndexForT c globalT =
    (let segmentIndex = segmentForT getIndexForT c globalT;
         innerIndex = segmentIndex + of_int (splineDegree c - 1)
     in computeDeboor c (innerIndex + 1) (splineDegree c) globalT)"

definition getTangent ::
  "(real list \<Rightarrow> real \<Rightarrow> size_t) \<Rightarrow> ('v::real_vector) GenericBSplineCommon \<Rightarrow> real
    \<Rightarrow> error + 'v InterpolatedPT" where
  "getTangent getIndexForT c globalT =
    (let segmentIndex = segmentForT getIndexForT c globalT;
         innerIndex = segmentIndex + of_int (splineDegree c - 1)
     in
       and_then (computeDeboor c (innerIndex + 1) (splineDegree c) globalT) (\<lambda>p.
       and_then (computeDeboorDerivative c (innerIndex + 1) (splineDegree c) globalT 1) (\<lambda>t1.
         Inr \<lparr>position = p, tangent = t1\<rparr>)))"

definition getCurvature ::
  "(real list \<Rightarrow> real \<Rightarrow> size_t) \<Rightarrow> ('v::real_vector) GenericBSplineCommon \<Rightarrow> real
    \<Rightarrow> error + 'v InterpolatedPTC" where
  "getCurvature getIndexForT c globalT =
    (let segmentIndex = segmentForT getIndexForT c globalT;
         innerIndex = segmentIndex + of_int (splineDegree c - 1)
     in
       and_then (computeDeboor c (innerIndex + 1) (splineDegree c) globalT) (\<lambda>p.
       and_then (computeDeboorDerivative c (innerIndex + 1) (splineDegree c) globalT 1) (\<lambda>t1.
       and_then (computeDeboorDerivative c (innerIndex + 1) (splineDegree c) globalT 2) (\<lambda>t2.
         Inr \<lparr>position = p, tangent = t1, curvature = t2\<rparr>))))"

definition getWiggle ::
  "(real list \<Rightarrow> real \<Rightarrow> size_t) \<Rightarrow> ('v::real_vector) GenericBSplineCommon \<Rightarrow> real
    \<Rightarrow> error + 'v InterpolatedPTCW" where
  "getWiggle getIndexForT c globalT =
    (let segmentIndex = segmentForT getIndexForT c globalT;
         innerIndex = segmentIndex + of_int (splineDegree c - 1)
     in
       and_then (computeDeboor c (innerIndex + 1) (splineDegree c) globalT) (\<lambda>p.
       and_then (computeDeboorDerivative c (innerIndex + 1) (splineDegree c) globalT 1) (\<lambda>t1.
       and_then (computeDeboorDerivative c (innerIndex + 1) (splineDegree c) globalT 2) (\<lambda>t2.
       and_then (computeDeboorDerivative c (innerIndex + 1) (splineDegree c) globalT 3) (\<lambda>t3.
         Inr \<lparr>position = p, tangent = t1, curvature = t2, wiggle = t3\<rparr>)))))"

text \<open>
  \<^verbatim>\<open>SplineLibraryCalculus::gaussLegendreQuadratureIntegral\<close> is not among the sources; it is
  the parameter \<open>gaussLegendreQuadratureIntegral\<close>, applied to the lambda of the source.
\<close>

definition segmentFunction ::
  "('v::real_normed_vector) GenericBSplineCommon \<Rightarrow> size_t \<Rightarrow> real \<Rightarrow> error + real" where
  "segmentFunction c innerIndex t =
    and_then (computeDeboorDerivative c (innerIndex + 1) (splineDegree c) t 1) (\<lambda>tangent.
      Inr (norm tangent))"

definition segmentLength ::
  "((real \<Rightarrow> error + real) \<Rightarrow> real \<Rightarrow> real \<Rightarrow> error + real)
    \<Rightarrow> ('v::real_normed_vector) GenericBSplineCommon \<Rightarrow> size_t \<Rightarrow> real \<Rightarrow> real \<Rightarrow> error + real" where
  "segmentLength gaussLegendreQuadratureIntegral c segmentIndex a b =
    (let innerIndex = segmentIndex + of_int (splineDegree c) - 1 in
       and_then (vector_at (knots c) (innerIndex + 1)) (\<lambda>k1.
       and_then (vector_at (knots c) innerIndex) (\<lambda>k0.
         let tDistance = k1 - k0 in
           if tDistance > 0
           then gaussLegendreQuadratureIntegral (segmentFunction c innerIndex) a b
           else Inr 0)))"

section \<open>GenericBSpline and LoopingGenericBSpline\<close>

text \<open>
  The knot builders \<^verbatim>\<open>SplineCommon::computeTValuesWithOuterPadding\<close> and
  \<^verbatim>\<open>SplineCommon::computeLoopingTValues\<close> are not among the sources; the constructors take
  them as a parameter. Their result, a \<^verbatim>\<open>std::unordered_map<int, floating_t>\<close>, is an
  association list with one entry per key: \<^verbatim>\<open>size()\<close> is its length, and \<^verbatim>\<open>operator[]\<close>
  yields the stored value, or the value-initialised \<open>0\<close> it inserts for a missing key.
\<close>

definition map_index :: "(int \<times> real) list \<Rightarrow> int \<Rightarrow> real" where
  "map_index m i = (case map_of m i of None \<Rightarrow> 0 | Some v \<Rightarrow> v)"

text \<open>
  The loop \<^verbatim>\<open>for(int i = -padding; i < bound; i++) knots[i + padding] = indexToT[i];\<close>
  started at \<open>i\<close>.
\<close>

function copyTValues ::
  "(int \<times> real) list \<Rightarrow> int \<Rightarrow> int \<Rightarrow> int \<Rightarrow> real list \<Rightarrow> error + real list" where
  "copyTValues indexToT padding bound i ks =
    (if i < bound then
       and_then (vector_set ks (of_int (i + padding)) (map_index indexToT i)) (\<lambda>ks'.
         copyTValues indexToT padding bound (i + 1) ks')
     else Inr ks)"
  by pat_completeness auto
termination
  by (relation "measure (\<lambda>(indexToT, padding, bound, i, ks). nat (bound - i))") auto

declare copyTValues.simps [simp del]

text \<open>
  \<^verbatim>\<open>std::copy(src.begin(), src.end(), dst.begin() + first)\<close> and
  \<^verbatim>\<open>std::copy_n(src.begin(), n, dst.begin() + first)\<close>: writing past the end of \<open>dst\<close>, or
  reading past the end of \<open>src\<close>, is \<open>OutOfBounds\<close>.
\<close>

definition std_copy :: "'a list \<Rightarrow> 'a list \<Rightarrow> int \<Rightarrow> error + 'a list" where
  "std_copy src dst first =
    (if 0 \<le> first \<and> nat first + length src \<le> length dst
     then Inr (take (nat first) dst @ src @ drop (nat first + length src) dst)
     else Inl OutOfBounds)"

definition std_copy_n :: "'a list \<Rightarrow> int \<Rightarrow> 'a list \<Rightarrow> int \<Rightarrow> error + 'a list" where
  "std_copy_n src n dst first =
    (if n \<le> 0 then Inr dst
     else if nat n \<le> length src then std_copy (take (nat n) src) dst first
     else Inl OutOfBounds)"

text \<open>
  The constructors. The base class constructor that runs before the assertion is not
  among the sources and is taken to store its arguments. \<^verbatim>\<open>assert\<close> is taken as checked
  (a build without \<^verbatim>\<open>NDEBUG\<close>).
\<close>

definition GenericBSpline ::
  "('v list \<Rightarrow> real \<Rightarrow> int \<Rightarrow> (int \<times> real) list) \<Rightarrow> 'v list \<Rightarrow> int
    \<Rightarrow> error + 'v GenericBSplineCommon" where
  "GenericBSpline computeTValuesWithOuterPadding points degree =
    (if \<not> of_nat (length points) > (of_int degree :: size_t) then Inl AssertionFailed
     else
       let size = int_of_size_t (of_nat (length points));
           padding = degree - 1;
           indexToT = computeTValuesWithOuterPadding points 0 padding
       in
         and_then (copyTValues indexToT padding (size + padding) (- padding)
                     (replicate (length indexToT) 0)) (\<lambda>ks.
           Inr \<lparr>positions = points, knots = ks, splineDegree = degree\<rparr>))"

definition LoopingGenericBSpline ::
  "('v list \<Rightarrow> real \<Rightarrow> int \<Rightarrow> (int \<times> real) list) \<Rightarrow> ('v::zero) list \<Rightarrow> int
    \<Rightarrow> error + 'v GenericBSplineCommon" where
  "LoopingGenericBSpline computeLoopingTValues points degree =
    (if \<not> of_nat (length points) > (of_int degree :: size_t) then Inl AssertionFailed
     else
       let size = int_of_size_t (of_nat (length points));
           padding = degree - 1;
           indexToT = computeLoopingTValues points 0 padding;
           positions0 = replicate (unat (of_nat (length points) + of_int degree :: size_t)) 0
       in
         and_then (vector_at points (of_int (size - 1))) (\<lambda>lastPoint.
         and_then (vector_set positions0 0 lastPoint) (\<lambda>positions1.
         and_then (std_copy points positions1 1) (\<lambda>positions2.
         and_then (std_copy_n points padding positions2
                     (int (length positions2) - padding)) (\<lambda>positions3.
         and_then (copyTValues indexToT padding (size + padding + 1) (- padding)
                     (replicate (length indexToT) 0)) (\<lambda>ks.
           Inr \<lparr>positions = positions3, knots = ks, splineDegree = degree\<rparr>))))))"

section \<open>The collaborators that are not among the sources\<close>

text \<open>
  Modelled from the spec: \<^verbatim>\<open>SplineCommon::getIndexForT\<close>, the ordered search of the Segment
  Locator (spec 4.2): the greatest knot index whose knot is at most \<open>t\<close>; index \<open>0\<close> when
  there is none.
\<close>

definition getIndexForT :: "real list \<Rightarrow> real \<Rightarrow> size_t" where
  "getIndexForT ks t =
    (case filter (\<lambda>i. ks ! i \<le> t) (rev [0..<length ks]) of [] \<Rightarrow> 0 | i # _ \<Rightarrow> of_nat i)"

text \<open>
  Modelled from the spec: the increment of the Knot Builder (spec 4.1) between two
  consecutive knots, the distance of the two control points to the power \<open>alpha\<close>;
  \<open>alpha = 0\<close> forces the increment \<open>1\<close>.
\<close>

definition knotIncrement :: "real \<Rightarrow> ('v::real_normed_vector) \<Rightarrow> 'v \<Rightarrow> real" where
  "knotIncrement alpha p q = (if alpha = 0 then 1 else norm (q - p) powr alpha)"

text \<open>
  Modelled from the spec: the knots of the Knot Builder (spec 4.1), the running sum of the
  increments from \<open>knot[0] = 0\<close>, towards both ends.
\<close>

definition knotRunningSum :: "(int \<Rightarrow> real) \<Rightarrow> int \<Rightarrow> real" where
  "knotRunningSum increment i =
    (if 0 \<le> i then sum_list (map increment [1..i]) else - sum_list (map increment [i + 1..0]))"

text \<open>
  Modelled from the spec: a control point at a padding index, extrapolated linearly from
  the two nearest real points (spec 4.1).
\<close>

definition paddedPoint :: "('v::real_normed_vector) list \<Rightarrow> int \<Rightarrow> 'v" where
  "paddedPoint points i =
    (let n = int (length points) in
       if i < 0 then points ! 0 + real_of_int i *\<^sub>R (points ! 1 - points ! 0)
       else if n \<le> i then
         points ! nat (n - 1)
           + real_of_int (i - (n - 1)) *\<^sub>R (points ! nat (n - 1) - points ! nat (n - 2))
       else points ! nat i)"

text \<open>
  Modelled from the spec: \<^verbatim>\<open>SplineCommon::computeTValuesWithOuterPadding\<close> (spec 4.1): one
  knot for each index from \<open>- padding\<close> to \<open>count - 1 + padding\<close>.
\<close>

definition computeTValuesWithOuterPadding ::
  "('v::real_normed_vector) list \<Rightarrow> real \<Rightarrow> int \<Rightarrow> (int \<times> real) list" where
  "computeTValuesWithOuterPadding points alpha padding =
    map (\<lambda>i. (i, knotRunningSum
                   (\<lambda>j. knotIncrement alpha (paddedPoint points (j - 1)) (paddedPoint points j)) i))
      [- padding..int (length points) - 1 + padding]"

text \<open>
  Modelled from the spec: a control point of a looping curve, the index taken modulo the
  number of points (spec 4.1).
\<close>

definition wrappedPoint :: "'v list \<Rightarrow> int \<Rightarrow> 'v" where
  "wrappedPoint points i = points ! nat (i mod int (length points))"

text \<open>
  Modelled from the spec: \<^verbatim>\<open>SplineCommon::computeLoopingTValues\<close> (spec 4.1): \<open>padding\<close>
  extra knots at each end and one more trailing knot.
\<close>

definition computeLoopingTValues ::
  "('v::real_normed_vector) list \<Rightarrow> real \<Rightarrow> int \<Rightarrow> (int \<times> real) list" where
  "computeLoopingTValues points alpha padding =
    map (\<lambda>i. (i, knotRunningSum
                   (\<lambda>j. knotIncrement alpha (wrappedPoint points (j - 1)) (wrappedPoint points j)) i))
      [- padding..int (length points) + padding]"

section \<open>The recursions as the specification words them\<close>

text \<open>
  Spec 4.3, position: at degree 0 the stored position at the current knot index; at degree
  \<open>d > 0\<close> the blend factor \<open>(t - knot[i-1]) / (knot[i + degree - d] - knot[i-1])\<close>, the two
  values of degree \<open>d - 1\<close> at \<open>i - 1\<close> and \<open>i\<close>, and their blend. \<open>P\<close> and \<open>K\<close> are the position and
  knot sequences as mappings from an integer index.
\<close>

fun deBoor_spec :: "(int \<Rightarrow> 'v::real_vector) \<Rightarrow> (int \<Rightarrow> real) \<Rightarrow> int \<Rightarrow> int \<Rightarrow> nat \<Rightarrow> real \<Rightarrow> 'v" where
  "deBoor_spec P K D i 0 t = P i"
| "deBoor_spec P K D i (Suc d) t =
    (let alpha = (t - K (i - 1)) / (K (i + D - int (Suc d)) - K (i - 1));
         leftValue = deBoor_spec P K D (i - 1) d t;
         rightValue = deBoor_spec P K D i d t
     in (1 - alpha) *\<^sub>R leftValue + alpha *\<^sub>R rightValue)"

text \<open>
  Spec 4.3, derivative of level \<open>m \<ge> 1\<close>: at degree 0 the zero vector; at degree \<open>d > 0\<close> the
  multiplier \<open>d / (knot[i + degree - d] - knot[i-1])\<close> times the difference of the position
  recursion at \<open>i\<close> and \<open>i - 1\<close> when \<open>m = 1\<close>, and times the difference of the derivative
  recursion of level \<open>m - 1\<close> at \<open>i\<close> and \<open>i - 1\<close> when \<open>m > 1\<close>.
\<close>

fun deBoorDerivative_spec ::
  "(int \<Rightarrow> 'v::real_vector) \<Rightarrow> (int \<Rightarrow> real) \<Rightarrow> int \<Rightarrow> int \<Rightarrow> nat \<Rightarrow> nat \<Rightarrow> real \<Rightarrow> 'v" where
  "deBoorDerivative_spec P K D i 0 m t = 0"
| "deBoorDerivative_spec P K D i (Suc d) m t =
    (let multiplier = real (Suc d) / (K (i + D - int (Suc d)) - K (i - 1)) in
       if m = 1
       then multiplier *\<^sub>R (deBoor_spec P K D i d t - deBoor_spec P K D (i - 1) d t)
       else multiplier *\<^sub>R (deBoorDerivative_spec P K D i d (m - 1) t
                                - deBoorDerivative_spec P K D (i - 1) d (m - 1) t))"

text \<open>A stored vector as a mapping from an integer index.\<close>

definition indexed :: "'a list \<Rightarrow> int \<Rightarrow> 'a" where
  "indexed xs i = xs ! nat i"

section \<open>Constructed curves\<close>

text \<open>
  What the data model of the specification demands of a curve, and what both
  constructors establish: a positive degree, more positions than the degree, the knots
  that every segment reads, knots that do not decrease, and vectors that a \<^verbatim>\<open>size_t\<close> can
  index.
\<close>

definition curve_inv :: "'v GenericBSplineCommon \<Rightarrow> bool" where
  "curve_inv c \<longleftrightarrow>
     0 < splineDegree c \<and>
     nat (splineDegree c) < length (positions c) \<and>
     length (positions c) + nat (splineDegree c) - 1 \<le> length (knots c) \<and>
     length (knots c) < 2 ^ 64 \<and>
     sorted (knots c)"

text \<open>
  The two knots that bound segment \<open>s\<close>: \<open>knots[innerIndex]\<close> and \<open>knots[innerIndex + 1]\<close>
  for \<open>innerIndex = s + (splineDegree - 1)\<close>.
\<close>

definition segmentStart :: "'v GenericBSplineCommon \<Rightarrow> size_t \<Rightarrow> real" where
  "segmentStart c s = knots c ! (unat s + nat (splineDegree c) - 1)"

definition segmentEnd :: "'v GenericBSplineCommon \<Rightarrow> size_t \<Rightarrow> real" where
  "segmentEnd c s = knots c ! (unat s + nat (splineDegree c))"

text \<open>
  The calls of either recursion that a query on the segment with inner index \<open>inner\<close>
  makes: at degree \<open>d\<close> the knot index \<open>i\<close> lies between \<open>inner + 1 - (D - d)\<close> and
  \<open>inner + 1\<close>.
\<close>

definition in_cone :: "nat \<Rightarrow> nat \<Rightarrow> nat \<Rightarrow> size_t \<Rightarrow> bool" where
  "in_cone inner D d i \<longleftrightarrow>
     d \<le> D \<and> d \<le> unat i \<and> unat i \<le> Suc inner \<and> Suc inner \<le> unat i + (D - d)"

text \<open>
  An open quadratic curve over four control points on the real line, as
  \<open>GenericBSpline\<close> builds it from uniform knots.
\<close>

definition quadratic_example :: "real GenericBSplineCommon" where
  "quadratic_example =
    \<lparr>positions = [0, 1, 3, 2], knots = [-1, 0, 1, 2, 3, 4], splineDegree = 2\<rparr>"

text \<open>
  A linear curve whose last segment is degenerate: its last two knots coincide.
\<close>

definition degenerate_example :: "real GenericBSplineCommon" where
  "degenerate_example = \<lparr>positions = [0, 1, 2], knots = [0, 1, 1], splineDegree = 1\<rparr>"

text \<open>
  Modelled from the spec: the quadrature of the Arc-Length Estimator (spec 4.4), a weighted
  sum of function evaluations at precomputed abscissas scaled into \<open>[a, b]\<close>; this is the
  Gauss-Legendre rule with one abscissa. It stands for the parameter
  \<open>gaussLegendreQuadratureIntegral\<close> where a concrete routine is needed.
\<close>

definition gaussLegendreOnePoint ::
  "(real \<Rightarrow> error + real) \<Rightarrow> real \<Rightarrow> real \<Rightarrow> error + real" where
  "gaussLegendreOnePoint f a b = and_then (f ((a + b) / 2)) (\<lambda>y. Inr ((b - a) * y))"

section \<open>Index arithmetic\<close>

lemma unat_of_nat_64: "k < 2 ^ 64 \<Longrightarrow> unat (of_nat k :: 64 word) = k"
  by (simp add: unat_of_nat)

lemma unat_add_of_nat:
  assumes "unat i + k < 2 ^ 64"
  shows "unat (i + of_nat k :: 64 word) = unat i + k"
proof -
  have k: "unat (of_nat k :: 64 word) = k"
    using assms by (simp add: unat_of_nat_64)
  have "unat i + unat (of_nat k :: 64 word) < 2 ^ LENGTH(64)"
    using assms k by simp
  then have "unat (i + of_nat k :: 64 word) = unat i + unat (of_nat k :: 64 word)"
    by (rule unat_add_lem [THEN iffD1])
  then show ?thesis using k by simp
qed

lemma unat_index:
  assumes "d \<le> D" "unat i + D < 2 ^ 64"
  shows "unat (i + of_int (int D) - of_int (int d) :: 64 word) = unat i + D - d"
proof -
  have eq: "i + of_int (int D) - of_int (int d) = i + (of_nat (D - d) :: 64 word)"
    using assms(1) by simp
  have "unat (i + of_int (int D) - of_int (int d)) = unat (i + (of_nat (D - d) :: 64 word))"
    by (simp only: eq)
  also have "\<dots> = unat i + (D - d)"
    using assms by (intro unat_add_of_nat) simp
  also have "\<dots> = unat i + D - d"
    using assms(1) by simp
  finally show ?thesis .
qed

lemma unat_pred: "i \<noteq> 0 \<Longrightarrow> unat (i - 1 :: 64 word) = unat i - 1"
  by (simp add: unat_minus_one)

lemma vector_at_in: "unat i < length xs \<Longrightarrow> vector_at xs i = Inr (xs ! unat i)"
  by (simp add: vector_at_def)

lemma computeDeboor_0: "computeDeboor c i 0 t = vector_at (positions c) i"
  by (simp add: computeDeboor.simps)

lemma computeDeboor_Suc:
  "computeDeboor c i (int (Suc d)) t =
     and_then (vector_at (knots c) (i - 1)) (\<lambda>k0.
     and_then (vector_at (knots c) (i + of_int (splineDegree c) - of_int (int (Suc d)))) (\<lambda>k1.
     and_then (float_div (t - k0) (k1 - k0)) (\<lambda>alpha.
     and_then (computeDeboor c (i - 1) (int d) t) (\<lambda>leftRecursive.
     and_then (computeDeboor c i (int d) t) (\<lambda>rightRecursive.
       Inr ((1 - alpha) *\<^sub>R leftRecursive + alpha *\<^sub>R rightRecursive))))))"
  by (subst computeDeboor.simps) simp

lemma cone_node:
  assumes srt: "sorted (knots c)" and len: "length (knots c) < 2 ^ 64"
    and D: "splineDegree c = int D"
    and span: "knots c ! inner < knots c ! Suc inner"
    and kn: "inner + D < length (knots c)"
    and cone: "in_cone inner D (Suc d) i"
  shows "vector_at (knots c) (i - 1) = Inr (knots c ! (unat i - 1))"
    and "vector_at (knots c) (i + of_int (splineDegree c) - of_int (int (Suc d)))
          = Inr (knots c ! (unat i + D - Suc d))"
    and "knots c ! (unat i + D - Suc d) - knots c ! (unat i - 1) \<noteq> 0"
    and "in_cone inner D d (i - 1)"
    and "in_cone inner D d i"
    and "uint (i - 1) = uint i - 1"
    and "indexed (knots c) (uint i - 1) = knots c ! (unat i - 1)"
    and "indexed (knots c) (uint i + int D - int (Suc d)) = knots c ! (unat i + D - Suc d)"
proof -
  from cone have c: "Suc d \<le> D" "Suc d \<le> unat i" "unat i \<le> Suc inner"
    "Suc inner \<le> unat i + (D - Suc d)"
    unfolding in_cone_def by auto
  have i0: "i \<noteq> 0" using c(2) by auto
  have u1: "unat (i - 1) = unat i - 1" using i0 by (rule unat_pred)
  have "unat i + D \<le> length (knots c)" using c(3) kn by linarith
  then have ovf: "unat i + D < 2 ^ 64" using len by (rule le_less_trans)
  have u2: "unat (i + of_int (int D) - of_int (int (Suc d))) = unat i + D - Suc d"
    using c(1) ovf by (rule unat_index)
  have r0: "unat i - 1 < length (knots c)" using c(3) kn by linarith
  have r1: "unat i + D - Suc d < length (knots c)" using c kn by linarith
  show "vector_at (knots c) (i - 1) = Inr (knots c ! (unat i - 1))"
    by (simp only: vector_at_def u1 r0 if_True)
  show "vector_at (knots c) (i + of_int (splineDegree c) - of_int (int (Suc d)))
          = Inr (knots c ! (unat i + D - Suc d))"
    by (simp only: vector_at_def D u2 r1 if_True)
  have "knots c ! (unat i - 1) \<le> knots c ! inner"
    using srt c(2,3) kn by (intro sorted_nth_mono) linarith+
  moreover have "knots c ! Suc inner \<le> knots c ! (unat i + D - Suc d)"
    using srt c r1 by (intro sorted_nth_mono) linarith+
  ultimately show "knots c ! (unat i + D - Suc d) - knots c ! (unat i - 1) \<noteq> 0"
    using span by linarith
  show "in_cone inner D d (i - 1)"
    unfolding in_cone_def u1 using c by linarith
  show "in_cone inner D d i"
    unfolding in_cone_def using c by linarith
  show "uint (i - 1) = uint i - 1"
    unfolding uint_nat u1 using c(2) by linarith
  have "nat (uint i - 1) = unat i - 1"
    unfolding uint_nat by linarith
  then show "indexed (knots c) (uint i - 1) = knots c ! (unat i - 1)"
    by (simp only: indexed_def)
  have "nat (uint i + int D - int (Suc d)) = unat i + D - Suc d"
    unfolding uint_nat using c(1) by linarith
  then show "indexed (knots c) (uint i + int D - int (Suc d)) = knots c ! (unat i + D - Suc d)"
    by (simp only: indexed_def)
qed

lemma computeDeboor_spec:
  fixes c :: "('v::real_vector) GenericBSplineCommon"
  assumes srt: "sorted (knots c)" and len: "length (knots c) < 2 ^ 64"
    and D: "splineDegree c = int D"
    and span: "knots c ! inner < knots c ! Suc inner"
    and pos: "Suc inner < length (positions c)"
    and kn: "inner + D < length (knots c)"
  shows "in_cone inner D d i \<Longrightarrow>
    computeDeboor c i (int d) t =
      Inr (deBoor_spec (indexed (positions c)) (indexed (knots c)) (int D) (uint i) d t)"
proof (induction d arbitrary: i)
  case 0
  then have "unat i < length (positions c)"
    using pos unfolding in_cone_def by linarith
  then show ?case
    by (simp add: computeDeboor_0 vector_at_in indexed_def)
next
  case (Suc d)
  note n = cone_node [OF srt len D span kn Suc.prems]
  let ?P = "indexed (positions c)" and ?K = "indexed (knots c)"
  let ?a = "knots c ! (unat i - 1)" and ?b = "knots c ! (unat i + D - Suc d)"
  have fd: "float_div (t - ?a) (?b - ?a) = Inr ((t - ?a) / (?b - ?a))"
    using n(3) by (simp only: float_div_def if_False)
  have "computeDeboor c i (int (Suc d)) t =
      Inr ((1 - (t - ?a) / (?b - ?a)) *\<^sub>R deBoor_spec ?P ?K (int D) (uint i - 1) d t
           + ((t - ?a) / (?b - ?a)) *\<^sub>R deBoor_spec ?P ?K (int D) (uint i) d t)"
    by (subst computeDeboor_Suc)
      (simp only: n(1,2) fd and_then_Inr Suc.IH [OF n(4)] Suc.IH [OF n(5)] n(6))
  also have "\<dots> = Inr (deBoor_spec ?P ?K (int D) (uint i) (Suc d) t)"
    by (simp only: deBoor_spec.simps Let_def n(7,8))
  finally show ?case .
qed

lemma computeDeboorDerivative_0: "computeDeboorDerivative c i 0 t m = Inr 0"
  by (simp add: computeDeboorDerivative.simps)

lemma computeDeboorDerivative_Suc:
  "computeDeboorDerivative c i (int (Suc d)) t m =
     and_then (vector_at (knots c) (i + of_int (splineDegree c) - of_int (int (Suc d)))) (\<lambda>k1.
     and_then (vector_at (knots c) (i - 1)) (\<lambda>k0.
     and_then (float_div (real_of_int (int (Suc d))) (k1 - k0)) (\<lambda>multiplier.
       if m \<le> 1 then
         and_then (computeDeboor c i (int d) t) (\<lambda>r.
         and_then (computeDeboor c (i - 1) (int d) t) (\<lambda>l.
           Inr (multiplier *\<^sub>R (r - l))))
       else
         and_then (computeDeboorDerivative c i (int d) t (m - 1)) (\<lambda>r.
         and_then (computeDeboorDerivative c (i - 1) (int d) t (m - 1)) (\<lambda>l.
           Inr (multiplier *\<^sub>R (r - l)))))))"
  by (subst computeDeboorDerivative.simps) (simp cong: if_cong)

lemma computeDeboorDerivative_spec:
  fixes c :: "('v::real_vector) GenericBSplineCommon"
  assumes srt: "sorted (knots c)" and len: "length (knots c) < 2 ^ 64"
    and D: "splineDegree c = int D"
    and span: "knots c ! inner < knots c ! Suc inner"
    and pos: "Suc inner < length (positions c)"
    and kn: "inner + D < length (knots c)"
  shows "in_cone inner D d i \<Longrightarrow> 1 \<le> m \<Longrightarrow>
    computeDeboorDerivative c i (int d) t (int m) =
      Inr (deBoorDerivative_spec (indexed (positions c)) (indexed (knots c)) (int D) (uint i) d m t)"
proof (induction d arbitrary: i m)
  case 0
  show ?case
    by (simp add: computeDeboorDerivative_0)
next
  case (Suc d)
  note n = cone_node [OF srt len D span kn Suc.prems(1)]
  note P = computeDeboor_spec [OF srt len D span pos kn]
  let ?P = "indexed (positions c)" and ?K = "indexed (knots c)"
  let ?a = "knots c ! (unat i - 1)" and ?b = "knots c ! (unat i + D - Suc d)"
  let ?mu = "real (Suc d) / (?b - ?a)"
  have fd: "float_div (real_of_int (int (Suc d))) (?b - ?a) = Inr ?mu"
    using n(3) by (simp only: float_div_def if_False of_int_of_nat_eq)
  show ?case
  proof (cases "m = 1")
    case True
    have "computeDeboorDerivative c i (int (Suc d)) t (int m) =
        Inr (?mu *\<^sub>R (deBoor_spec ?P ?K (int D) (uint i) d t
                       - deBoor_spec ?P ?K (int D) (uint i - 1) d t))"
      by (subst computeDeboorDerivative_Suc)
        (simp only: n(1,2) fd and_then_Inr P [OF n(4)] P [OF n(5)] n(6) True
          of_nat_1 order_refl if_True)
    also have "\<dots> = Inr (deBoorDerivative_spec ?P ?K (int D) (uint i) (Suc d) m t)"
      by (simp only: deBoorDerivative_spec.simps Let_def n(7,8) True simp_thms if_True)
    finally show ?thesis .
  next
    case False
    with Suc.prems(2) have m: "1 \<le> m - 1" "\<not> int m \<le> 1" "int m - 1 = int (m - 1)"
      by linarith+
    have "computeDeboorDerivative c i (int (Suc d)) t (int m) =
        Inr (?mu *\<^sub>R (deBoorDerivative_spec ?P ?K (int D) (uint i) d (m - 1) t
                       - deBoorDerivative_spec ?P ?K (int D) (uint i - 1) d (m - 1) t))"
      by (subst computeDeboorDerivative_Suc)
        (simp only: n(1,2) fd and_then_Inr m(2,3) if_False
          Suc.IH [OF n(4) m(1)] Suc.IH [OF n(5) m(1)] n(6))
    also have "\<dots> = Inr (deBoorDerivative_spec ?P ?K (int D) (uint i) (Suc d) m t)"
      by (simp only: deBoorDerivative_spec.simps Let_def n(7,8) False if_False)
    finally show ?thesis .
  qed
qed

lemma deBoorDerivative_spec_zero:
  "d < m \<Longrightarrow> deBoorDerivative_spec P K D i d m t = 0"
proof (induction d arbitrary: i m)
  case 0
  show ?case by simp
next
  case (Suc d)
  then have "m \<noteq> 1" "d < m - 1" by linarith+
  then show ?case
    by (simp add: Suc.IH Let_def)
qed


lemma segmentForT_le: "segmentCount c \<noteq> 0 \<Longrightarrow> segmentForT gi c t \<le> segmentCount c - 1"
  by (auto simp: segmentForT_def Let_def)

lemma curve_segmentCount:
  assumes inv: "curve_inv c"
  shows "unat (segmentCount c) = length (positions c) - nat (splineDegree c)"
    and "segmentCount c \<noteq> 0"
    and "unat (segmentCount c - 1) = length (positions c) - nat (splineDegree c) - 1"
proof -
  let ?n = "length (positions c)" and ?D = "nat (splineDegree c)"
  from inv have D: "splineDegree c = int ?D" and D0: "0 < ?D" and Dn: "?D < ?n"
    and nk: "?n \<le> length (knots c)" and len: "length (knots c) < 2 ^ 64"
    unfolding curve_inv_def by auto
  have n64: "?n < 2 ^ 64" using nk len by (rule le_less_trans)
  have "?n - ?D \<le> ?n" by simp
  then have nd64: "?n - ?D < 2 ^ 64" using n64 by (rule le_less_trans)
  have "segmentCount c = of_nat ?n - of_int (int ?D)"
    unfolding segmentCount_def using D by simp
  also have "\<dots> = of_nat (?n - ?D)"
    using Dn by simp
  finally have sc: "segmentCount c = of_nat (?n - ?D)" .
  show u: "unat (segmentCount c) = ?n - ?D"
    unfolding sc using nd64 by (rule unat_of_nat_64)
  show nz: "segmentCount c \<noteq> 0"
  proof
    assume "segmentCount c = 0"
    then have "unat (segmentCount c) = 0" by simp
    with u Dn show False by linarith
  qed
  show "unat (segmentCount c - 1) = ?n - ?D - 1"
    using unat_pred [OF nz] u by simp
qed

lemma curve_top:
  assumes inv: "curve_inv c" and s: "s \<le> segmentCount c - 1"
  shows "unat (s + of_int (splineDegree c - 1) + 1) = unat s + nat (splineDegree c)"
    and "unat s + nat (splineDegree c) < length (positions c)"
    and "unat s + nat (splineDegree c) - 1 + nat (splineDegree c) < length (knots c)"
proof -
  let ?n = "length (positions c)" and ?D = "nat (splineDegree c)"
  from inv have D: "splineDegree c = int ?D" and D0: "0 < ?D" and Dn: "?D < ?n"
    and nk: "?n + ?D - 1 \<le> length (knots c)" and len: "length (knots c) < 2 ^ 64"
    unfolding curve_inv_def by auto
  have "unat s \<le> unat (segmentCount c - 1)"
    using s by (simp add: word_le_nat_alt)
  then have us: "unat s \<le> ?n - ?D - 1"
    using curve_segmentCount(3) [OF inv] by simp
  show p: "unat s + ?D < ?n" using us Dn by linarith
  show k: "unat s + ?D - 1 + ?D < length (knots c)" using us Dn D0 nk by linarith
  have "unat s + ?D \<le> length (knots c)" using k D0 by linarith
  then have ovf: "unat s + ?D < 2 ^ 64" using len by (rule le_less_trans)
  have "s + of_int (splineDegree c - 1) + 1 = s + of_nat ?D"
    by (subst D) (simp add: D0)
  then show "unat (s + of_int (splineDegree c - 1) + 1) = unat s + ?D"
    using unat_add_of_nat [OF ovf] by simp
qed

lemma curve_cone:
  assumes inv: "curve_inv c" and s: "s \<le> segmentCount c - 1"
  shows "in_cone (unat s + nat (splineDegree c) - 1) (nat (splineDegree c)) (nat (splineDegree c))
           (s + of_int (splineDegree c - 1) + 1)"
proof -
  from inv have "0 < nat (splineDegree c)"
    unfolding curve_inv_def by auto
  then show ?thesis
    unfolding in_cone_def curve_top(1) [OF inv s] by linarith
qed

lemma top_computeDeboor:
  fixes c :: "('v::real_vector) GenericBSplineCommon"
  assumes inv: "curve_inv c" and s: "s \<le> segmentCount c - 1"
    and span: "segmentStart c s < segmentEnd c s"
  shows "computeDeboor c (s + of_int (splineDegree c - 1) + 1) (splineDegree c) t =
    Inr (deBoor_spec (indexed (positions c)) (indexed (knots c)) (splineDegree c)
           (uint s + splineDegree c) (nat (splineDegree c)) t)"
proof -
  let ?D = "nat (splineDegree c)" and ?i = "s + of_int (splineDegree c - 1) + 1"
  let ?inner = "unat s + ?D - 1"
  from inv have D: "splineDegree c = int ?D" and D0: "0 < ?D"
    and srt: "sorted (knots c)" and len: "length (knots c) < 2 ^ 64"
    unfolding curve_inv_def by auto
  have Si: "Suc ?inner = unat s + ?D" using D0 by linarith
  have sp: "knots c ! ?inner < knots c ! Suc ?inner"
    using span unfolding segmentStart_def segmentEnd_def Si .
  have pos: "Suc ?inner < length (positions c)"
    unfolding Si by (rule curve_top(2) [OF inv s])
  have kn: "?inner + ?D < length (knots c)"
    by (rule curve_top(3) [OF inv s])
  have ui: "uint ?i = uint s + splineDegree c"
    unfolding uint_nat curve_top(1) [OF inv s] using D by linarith
  have "computeDeboor c ?i (int ?D) t =
      Inr (deBoor_spec (indexed (positions c)) (indexed (knots c)) (int ?D) (uint ?i) ?D t)"
    by (rule computeDeboor_spec [OF srt len D sp pos kn curve_cone [OF inv s]])
  then show ?thesis
    unfolding ui using D by simp
qed

lemma top_computeDeboorDerivative:
  fixes c :: "('v::real_vector) GenericBSplineCommon"
  assumes inv: "curve_inv c" and s: "s \<le> segmentCount c - 1"
    and span: "segmentStart c s < segmentEnd c s" and m: "1 \<le> m"
  shows "computeDeboorDerivative c (s + of_int (splineDegree c - 1) + 1) (splineDegree c) t (int m) =
    Inr (deBoorDerivative_spec (indexed (positions c)) (indexed (knots c)) (splineDegree c)
           (uint s + splineDegree c) (nat (splineDegree c)) m t)"
proof -
  let ?D = "nat (splineDegree c)" and ?i = "s + of_int (splineDegree c - 1) + 1"
  let ?inner = "unat s + ?D - 1"
  from inv have D: "splineDegree c = int ?D" and D0: "0 < ?D"
    and srt: "sorted (knots c)" and len: "length (knots c) < 2 ^ 64"
    unfolding curve_inv_def by auto
  have Si: "Suc ?inner = unat s + ?D" using D0 by linarith
  have sp: "knots c ! ?inner < knots c ! Suc ?inner"
    using span unfolding segmentStart_def segmentEnd_def Si .
  have pos: "Suc ?inner < length (positions c)"
    unfolding Si by (rule curve_top(2) [OF inv s])
  have kn: "?inner + ?D < length (knots c)"
    by (rule curve_top(3) [OF inv s])
  have ui: "uint ?i = uint s + splineDegree c"
    unfolding uint_nat curve_top(1) [OF inv s] using D by linarith
  have "computeDeboorDerivative c ?i (int ?D) t (int m) =
      Inr (deBoorDerivative_spec (indexed (positions c)) (indexed (knots c)) (int ?D) (uint ?i) ?D m t)"
    by (rule computeDeboorDerivative_spec [OF srt len D sp pos kn curve_cone [OF inv s] m])
  then show ?thesis
    unfolding ui using D by simp
qed

lemma and_then_eq_Inr: "and_then m f = Inr v \<longleftrightarrow> (\<exists>x. m = Inr x \<and> f x = Inr v)"
  by (cases m) simp_all

lemma computeDeboor_negative: "d < 0 \<Longrightarrow> computeDeboor c i d t = Inl UnboundedRecursion"
  by (simp add: computeDeboor.simps)

lemma derivative_returns_nat:
  "computeDeboor c i (int d) t = Inr p \<Longrightarrow> \<exists>v. computeDeboorDerivative c i (int d) t m = Inr v"
proof (induction d arbitrary: i m p)
  case 0
  show ?case by (simp add: computeDeboorDerivative_0)
next
  case (Suc d)
  from Suc.prems obtain k0 k1 alpha l r where
    k0: "vector_at (knots c) (i - 1) = Inr k0"
    and k1: "vector_at (knots c) (i + of_int (splineDegree c) - of_int (int (Suc d))) = Inr k1"
    and al: "float_div (t - k0) (k1 - k0) = Inr alpha"
    and l: "computeDeboor c (i - 1) (int d) t = Inr l"
    and r: "computeDeboor c i (int d) t = Inr r"
    unfolding computeDeboor_Suc and_then_eq_Inr by blast
  from al have fd: "float_div (real_of_int (int (Suc d))) (k1 - k0)
      = Inr (real_of_int (int (Suc d)) / (k1 - k0))"
    by (simp add: float_div_def split: if_splits)
  obtain dl where dl: "computeDeboorDerivative c (i - 1) (int d) t (m - 1) = Inr dl"
    using Suc.IH [OF l] by blast
  obtain dr where dr: "computeDeboorDerivative c i (int d) t (m - 1) = Inr dr"
    using Suc.IH [OF r] by blast
  show ?case
    by (subst computeDeboorDerivative_Suc) (simp only: k0 k1 fd l r dl dr and_then_Inr, simp)
qed

lemma derivative_returns:
  assumes "computeDeboor c i d t = Inr p"
  shows "\<exists>v. computeDeboorDerivative c i d t m = Inr v"
proof (cases "d < 0")
  case True
  with assms show ?thesis by (simp add: computeDeboor_negative)
next
  case False
  then have "d = int (nat d)" by simp
  with assms derivative_returns_nat [of c i "nat d" t p m] show ?thesis by simp
qed

lemma curve_inner:
  assumes inv: "curve_inv c" and s: "s \<le> segmentCount c - 1"
  shows "s + of_int (splineDegree c) - 1 + 1 = s + of_int (splineDegree c - 1) + 1"
    and "unat (s + of_int (splineDegree c) - 1) = unat s + nat (splineDegree c) - 1"
    and "unat s + nat (splineDegree c) - 1 < length (knots c)"
    and "unat s + nat (splineDegree c) < length (knots c)"
    and "segmentStart c s \<le> segmentEnd c s"
proof -
  let ?D = "nat (splineDegree c)"
  from inv have D0: "0 < ?D" and srt: "sorted (knots c)"
    unfolding curve_inv_def by auto
  show e: "s + of_int (splineDegree c) - 1 + 1 = s + of_int (splineDegree c - 1) + 1"
    by simp
  have nz: "s + of_int (splineDegree c - 1) + 1 \<noteq> 0"
    using curve_top(1) [OF inv s] D0 by (metis add_is_0 less_numeral_extra(3) unat_0)
  have "s + of_int (splineDegree c) - 1 = (s + of_int (splineDegree c - 1) + 1) - 1"
    by simp
  then have "unat (s + of_int (splineDegree c) - 1) = unat (s + of_int (splineDegree c - 1) + 1) - 1"
    using unat_pred [OF nz] by simp
  then show "unat (s + of_int (splineDegree c) - 1) = unat s + ?D - 1"
    unfolding curve_top(1) [OF inv s] .
  show k: "unat s + ?D < length (knots c)"
    using curve_top(3) [OF inv s] D0 by linarith
  then show "unat s + ?D - 1 < length (knots c)"
    by linarith
  show "segmentStart c s \<le> segmentEnd c s"
    unfolding segmentStart_def segmentEnd_def using srt k
    by (intro sorted_nth_mono) linarith+
qed

lemma top_zero_span:
  fixes c :: "('v::real_vector) GenericBSplineCommon"
  assumes inv: "curve_inv c" and s: "s \<le> segmentCount c - 1"
    and span: "segmentStart c s = segmentEnd c s"
  shows "computeDeboor c (s + of_int (splineDegree c - 1) + 1) (splineDegree c) t
    = Inl DivisionByZero"
proof -
  let ?D = "nat (splineDegree c)" and ?i = "s + of_int (splineDegree c - 1) + 1"
  note ci = curve_inner [OF inv s]
  from inv have D: "splineDegree c \<noteq> 0" "\<not> splineDegree c < 0"
    unfolding curve_inv_def by auto
  have i1: "?i - 1 = s + of_int (splineDegree c) - 1" by simp
  have i2: "?i + of_int (splineDegree c) - of_int (splineDegree c) = ?i" by simp
  have k0: "vector_at (knots c) (?i - 1) = Inr (segmentStart c s)"
    unfolding i1 vector_at_def ci(2) segmentStart_def using ci(3) by simp
  have k1: "vector_at (knots c) (?i + of_int (splineDegree c) - of_int (splineDegree c))
      = Inr (segmentEnd c s)"
    unfolding i2 vector_at_def curve_top(1) [OF inv s] segmentEnd_def using ci(4) by simp
  have fd: "float_div (t - segmentStart c s) (segmentEnd c s - segmentStart c s)
      = Inl DivisionByZero"
    using span by (simp add: float_div_def)
  show ?thesis
    by (subst computeDeboor.simps) (simp only: k0 k1 fd and_then_Inr and_then_Inl D if_False)
qed

section \<open>What the constructors build\<close>

lemma p31_64: "(2::nat) ^ 31 < 2 ^ 64"
  by simp

lemma p29_64: "(2::nat) ^ 29 < 2 ^ 64"
  by simp

lemma int_of_size_t_of_nat:
  assumes "n < 2 ^ 29"
  shows "int_of_size_t (of_nat n) = int n"
proof -
  have n32: "take_bit 64 n = n"
    using assms by (simp add: take_bit_nat_eq_self_iff order_less_trans [OF _ p29_64])
  have "(ucast (of_nat n :: 64 word) :: 32 word) = of_nat n"
    by (simp add: unsigned_of_nat n32)
  moreover have "sint (of_nat n :: 32 word) = int n"
  proof -
    have "sint (of_nat n :: 32 word) = signed_take_bit 31 (int n)"
      by (simp add: signed_of_nat)
    also have "\<dots> = int n"
      using assms by (intro signed_take_bit_int_eq_self) simp_all
    finally show ?thesis .
  qed
  ultimately show ?thesis
    unfolding int_of_size_t_def by simp
qed

lemma unat_of_int_64:
  assumes "0 \<le> d" and "nat d < 2 ^ 64"
  shows "unat (of_int d :: 64 word) = nat d"
proof -
  have "(of_int d :: 64 word) = of_nat (nat d)"
    using assms(1) by simp
  then show ?thesis
    using unat_of_nat_64 [OF assms(2)] by simp
qed

lemma assert_holds:
  assumes "0 \<le> d" and "nat d < n" and "n < 2 ^ 29"
  shows "of_nat n > (of_int d :: size_t)"
proof -
  have n: "n < 2 ^ 64" using assms(3) p29_64 by (rule order_less_trans)
  have d: "nat d < 2 ^ 64" using assms(2) n by (rule order_less_trans)
  show ?thesis
    unfolding word_less_nat_alt unat_of_nat_64 [OF n] unat_of_int_64 [OF assms(1) d]
    by (rule assms(2))
qed

lemma assert_fails:
  assumes "int n \<le> d" and "d < 2 ^ 31"
  shows "\<not> of_nat n > (of_int d :: size_t)"
proof -
  have d0: "0 \<le> d" using assms(1) by linarith
  have "nat d < 2 ^ 31" using assms(2) d0 by (simp add: nat_less_iff)
  then have d: "nat d < 2 ^ 64" using p31_64 by (rule order_less_trans)
  have "n \<le> nat d" using assms(1) by linarith
  then have n: "n < 2 ^ 64" using d by (rule le_less_trans)
  show ?thesis
    unfolding word_less_nat_alt unat_of_nat_64 [OF n] unat_of_int_64 [OF d0 d]
    using \<open>n \<le> nat d\<close> by simp
qed

lemma vector_set_in:
  "unat i < length xs \<Longrightarrow> vector_set xs i v = Inr (xs[unat i := v])"
  by (simp add: vector_set_def)

lemma copyTValues_returns:
  "0 \<le> i + padding \<Longrightarrow> nat (bound + padding) \<le> length ks \<Longrightarrow> nat (bound + padding) < 2 ^ 64 \<Longrightarrow>
    \<exists>ks'. copyTValues m padding bound i ks = Inr ks' \<and> length ks' = length ks"
proof (induction m padding bound i ks rule: copyTValues.induct)
  case (1 indexToT padding bound i ks)
  show ?case
  proof (cases "i < bound")
    case False
    then show ?thesis
      by (subst copyTValues.simps) simp
  next
    case True
    let ?k = "nat (i + padding)"
    have k: "?k < length ks" using True "1.prems"(1,2) by linarith
    have "?k \<le> nat (bound + padding)" using True by linarith
    then have "?k < 2 ^ 64" using "1.prems"(3) by (rule le_less_trans)
    then have u: "unat (of_int (i + padding) :: size_t) = ?k"
      using "1.prems"(1) by (intro unat_of_int_64) simp_all
    have vs: "vector_set ks (of_int (i + padding)) (map_index indexToT i)
        = Inr (ks[?k := map_index indexToT i])"
      using vector_set_in [of "of_int (i + padding)" ks] k u by simp
    have step: "copyTValues indexToT padding bound i ks
        = copyTValues indexToT padding bound (i + 1) (ks[?k := map_index indexToT i])"
      by (subst copyTValues.simps) (simp only: True if_True vs and_then_Inr)
    have "\<exists>ks'. copyTValues indexToT padding bound (i + 1) (ks[?k := map_index indexToT i]) = Inr ks'
        \<and> length ks' = length (ks[?k := map_index indexToT i])"
      using "1.prems" by (intro "1.IH" [OF True vs]) simp_all
    then show ?thesis
      unfolding step by simp
  qed
qed

text \<open>
  The constructors compute with \<^verbatim>\<open>int\<close>: the size, the padding and the loop counter, which
  ends at \<open>size + 2 * padding\<close> (plus one for a looping curve). Fewer than \<open>2 ^ 29\<close>
  control points keep every one of these values below \<open>2 ^ 31\<close>, where the model's
  integers are the program's.
\<close>

lemma constructor_ints_fit:
  assumes "0 < degree" and "nat degree < n" and "n < 2 ^ 29"
  shows "int n + (degree - 1) + 1 + (degree - 1) < 2 ^ 31"
proof -
  have "n < 536870912" using assms(3) by simp
  then have "int n + (degree - 1) + 1 + (degree - 1) < 2147483648"
    using assms(1,2) by linarith
  then show ?thesis by simp
qed

lemma knot_count_bound:
  assumes "nat degree < n" and "n < 2 ^ 29"
  shows "n + 2 * nat (degree - 1) + 1 < 2 ^ 64"
proof -
  have "n < 536870912" using assms(2) by simp
  then have "n + 2 * nat (degree - 1) + 1 < 18446744073709551616"
    using assms(1) by linarith
  then show ?thesis by simp
qed

lemma GenericBSpline_returns:
  assumes d: "0 < degree" and n: "nat degree < length points" "length points < 2 ^ 29"
    and tbl: "length points + 2 * nat (degree - 1) \<le> length (tValues points 0 (degree - 1))"
  shows "\<exists>c. GenericBSpline tValues points degree = Inr c \<and> positions c = points
    \<and> splineDegree c = degree \<and> length (knots c) = length (tValues points 0 (degree - 1))"
proof -
  let ?tbl = "tValues points 0 (degree - 1)"
  have a: "of_nat (length points) > (of_int degree :: size_t)"
    using d n by (intro assert_holds) simp_all
  have size: "int_of_size_t (of_nat (length points)) = int (length points)"
    using n(2) by (rule int_of_size_t_of_nat)
  have b: "nat (int (length points) + (degree - 1) + (degree - 1)) = length points + 2 * nat (degree - 1)"
    using d by linarith
  have "length points + 2 * nat (degree - 1) < length points + 2 * nat (degree - 1) + 1" by simp
  then have b64: "length points + 2 * nat (degree - 1) < 2 ^ 64"
    using knot_count_bound [OF n] by (rule order_less_trans)
  obtain ks where ks: "copyTValues ?tbl (degree - 1) (int (length points) + (degree - 1)) (- (degree - 1))
      (replicate (length ?tbl) 0) = Inr ks" and len: "length ks = length ?tbl"
    using copyTValues_returns [of "- (degree - 1)" "degree - 1" "int (length points) + (degree - 1)"
        "replicate (length ?tbl) 0" ?tbl] tbl b b64
    by auto
  show ?thesis
    unfolding GenericBSpline_def Let_def size using a by (simp only: ks and_then_Inr) (simp add: len)
qed

lemma looping_positions:
  fixes points :: "('v::zero) list"
  assumes d: "0 < degree" and n: "nat degree < length points" "length points < 2 ^ 29"
  shows "and_then (vector_at points (of_int (int (length points) - 1))) (\<lambda>lastPoint.
         and_then (vector_set (replicate (unat (of_nat (length points) + of_int degree :: size_t)) 0)
                     0 lastPoint) (\<lambda>positions1.
         and_then (std_copy points positions1 1) (\<lambda>positions2.
         and_then (std_copy_n points (degree - 1) positions2
                     (int (length positions2) - (degree - 1))) k)))
       = k (points ! (length points - 1) # points @ take (nat (degree - 1)) points)"
proof -
  let ?n = "length points" and ?D = "nat degree"
  let ?last = "points ! (?n - 1)"
  have n64: "?n < 2 ^ 64" using n(2) p29_64 by (rule order_less_trans)
  have "?n + ?D \<le> ?n + 2 * nat (degree - 1) + 1" using d by linarith
  then have nd64: "?n + ?D < 2 ^ 64"
    using knot_count_bound [OF n] by (rule le_less_trans)
  have "?n - 1 \<le> ?n" by simp
  then have m64: "?n - 1 < 2 ^ 64" using n64 by (rule le_less_trans)
  have i: "int ?n - 1 = int (?n - 1)" using n(1) by linarith
  have "unat (of_int (int ?n - 1) :: size_t) = ?n - 1"
    unfolding i using unat_of_nat_64 [OF m64] by simp
  then have s1: "vector_at points (of_int (int ?n - 1)) = Inr ?last"
    using n(1) by (simp add: vector_at_def)
  have "(of_nat ?n + of_int degree :: size_t) = of_nat ?n + of_nat ?D"
    using d by simp
  moreover have "unat (of_nat ?n + of_nat ?D :: size_t) = ?n + ?D"
    using unat_add_of_nat [of "of_nat ?n" ?D] nd64 unat_of_nat_64 [OF n64] by simp
  ultimately have len0: "unat (of_nat ?n + of_int degree :: size_t) = ?n + ?D"
    by simp
  have s2: "vector_set (replicate (?n + ?D) (0::'v)) 0 ?last
      = Inr (?last # replicate (?n + ?D - 1) 0)"
    using n(1) by (cases "?n + ?D") (simp_all add: vector_set_def)
  have s3: "std_copy points (?last # replicate (?n + ?D - 1) (0::'v)) 1
      = Inr (?last # points @ replicate (?D - 1) 0)"
    using d by (simp add: std_copy_def)
  have s4: "std_copy_n points (degree - 1) (?last # points @ replicate (?D - 1) (0::'v))
        (int (length (?last # points @ replicate (?D - 1) (0::'v))) - (degree - 1))
      = Inr (?last # points @ take (nat (degree - 1)) points)"
  proof (cases "degree - 1 \<le> 0")
    case True
    then show ?thesis using d by (simp add: std_copy_n_def)
  next
    case False
    have f: "nat (int (length (?last # points @ replicate (?D - 1) (0::'v))) - (degree - 1)) = Suc ?n"
      using d by (simp add: nat_diff_distrib)
    have l: "length (take (nat (degree - 1)) points) = ?D - 1"
      using n(1) d by (simp add: nat_diff_distrib)
    show ?thesis
      unfolding std_copy_n_def std_copy_def f l using False n(1) d
      by (simp add: nat_diff_distrib)
  qed
  show ?thesis
    by (simp only: s1 and_then_Inr len0 s2 s3 s4)
qed

lemma LoopingGenericBSpline_returns:
  fixes points :: "('v::zero) list"
  assumes d: "0 < degree" and n: "nat degree < length points" "length points < 2 ^ 29"
    and tbl: "length points + 2 * nat (degree - 1) + 1 \<le> length (tValues points 0 (degree - 1))"
  shows "\<exists>c. LoopingGenericBSpline tValues points degree = Inr c
    \<and> positions c = points ! (length points - 1) # points @ take (nat (degree - 1)) points
    \<and> splineDegree c = degree \<and> length (knots c) = length (tValues points 0 (degree - 1))"
proof -
  let ?tbl = "tValues points 0 (degree - 1)"
  have a: "of_nat (length points) > (of_int degree :: size_t)"
    using d n by (intro assert_holds) simp_all
  have size: "int_of_size_t (of_nat (length points)) = int (length points)"
    using n(2) by (rule int_of_size_t_of_nat)
  have b: "nat (int (length points) + (degree - 1) + 1 + (degree - 1))
      = length points + 2 * nat (degree - 1) + 1"
    using d by linarith
  obtain ks where ks: "copyTValues ?tbl (degree - 1) (int (length points) + (degree - 1) + 1)
      (- (degree - 1)) (replicate (length ?tbl) 0) = Inr ks" and len: "length ks = length ?tbl"
    using copyTValues_returns [of "- (degree - 1)" "degree - 1"
        "int (length points) + (degree - 1) + 1" "replicate (length ?tbl) 0" ?tbl]
      tbl b knot_count_bound [OF n]
    by auto
  show ?thesis
    unfolding LoopingGenericBSpline_def Let_def size using a
    by (simp only: looping_positions [OF d n] ks and_then_Inr) (simp add: len)
qed

lemma unat_size_minus_degree:
  assumes "0 \<le> d" and "nat d \<le> n" and "n < 2 ^ 64"
  shows "unat (of_nat n - of_int d :: size_t) = n - nat d"
proof -
  have "n - nat d \<le> n" by simp
  then have nd: "n - nat d < 2 ^ 64" using assms(3) by (rule le_less_trans)
  have "(of_nat n - of_int d :: size_t) = of_nat n - of_nat (nat d)"
    using assms(1) by simp
  also have "\<dots> = of_nat (n - nat d)"
    using assms(2) by simp
  finally show ?thesis
    using unat_of_nat_64 [OF nd] by simp
qed

text \<open>
  With the knot builders of the specification, which both constructors call with the
  exponent \<open>0\<close>, the knots are uniform: the curve satisfies \<open>curve_inv\<close>, every segment
  has a positive knot span, and the first stored knot is not positive.
\<close>

lemma copyTValues_content:
  "0 \<le> i + padding \<Longrightarrow> i \<le> bound \<Longrightarrow> nat (bound + padding) \<le> length ks \<Longrightarrow>
   nat (bound + padding) < 2 ^ 64 \<Longrightarrow>
    copyTValues m padding bound i ks =
      Inr (take (nat (i + padding)) ks @ map (map_index m) [i..bound - 1]
            @ drop (nat (bound + padding)) ks)"
proof (induction m padding bound i ks rule: copyTValues.induct)
  case (1 indexToT padding bound i ks)
  show ?case
  proof (cases "i < bound")
    case False
    with "1.prems"(2) have "i = bound" by simp
    then show ?thesis
      by (subst copyTValues.simps) simp
  next
    case True
    let ?k = "nat (i + padding)" and ?v = "map_index indexToT i"
    have k: "?k < length ks" using True "1.prems"(1,3) by linarith
    have "?k \<le> nat (bound + padding)" using True by linarith
    then have "?k < 2 ^ 64" using "1.prems"(4) by (rule le_less_trans)
    then have u: "unat (of_int (i + padding) :: size_t) = ?k"
      using "1.prems"(1) by (intro unat_of_int_64) simp_all
    have vs: "vector_set ks (of_int (i + padding)) ?v = Inr (ks[?k := ?v])"
      using vector_set_in [of "of_int (i + padding)" ks] k u by simp
    have step: "copyTValues indexToT padding bound i ks
        = copyTValues indexToT padding bound (i + 1) (ks[?k := ?v])"
      by (subst copyTValues.simps) (simp only: True if_True vs and_then_Inr)
    have ih: "copyTValues indexToT padding bound (i + 1) (ks[?k := ?v]) =
        Inr (take (nat (i + 1 + padding)) (ks[?k := ?v]) @ map (map_index indexToT) [i + 1..bound - 1]
              @ drop (nat (bound + padding)) (ks[?k := ?v]))"
      using "1.prems" True by (intro "1.IH" [OF True vs]) simp_all
    have k1: "nat (i + 1 + padding) = Suc ?k" using "1.prems"(1) by linarith
    have t: "take (Suc ?k) (ks[?k := ?v]) = take ?k ks @ [?v]"
      using k by (simp add: take_Suc_conv_app_nth)
    have dr: "drop (nat (bound + padding)) (ks[?k := ?v]) = drop (nat (bound + padding)) ks"
      using True "1.prems"(1) by (intro drop_update_cancel) linarith
    have up: "[i..bound - 1] = i # [i + 1..bound - 1]"
      using True by (simp add: upto_rec1)
    show ?thesis
      unfolding step ih k1 t dr up by simp
  qed
qed

lemma map_of_tabulate:
  "map_of (map (\<lambda>i. (i, f i)) xs) k = (if k \<in> set xs then Some (f k) else None)"
  by (induction xs) auto

lemma map_index_tabulate:
  "k \<in> set xs \<Longrightarrow> map_index (map (\<lambda>i. (i, f i)) xs) k = f k"
  by (simp add: map_index_def map_of_tabulate)

lemma sum_list_ones: "sum_list (map (\<lambda>j. 1 :: real) xs) = real (length xs)"
  by (induction xs) simp_all

lemma knotRunningSum_uniform: "knotRunningSum (\<lambda>j. 1) i = real_of_int i"
  by (simp add: knotRunningSum_def sum_list_ones)

lemma uniform_table:
  "computeTValuesWithOuterPadding points 0 padding
     = map (\<lambda>i. (i, real_of_int i)) [- padding..int (length points) - 1 + padding]"
  by (simp add: computeTValuesWithOuterPadding_def knotIncrement_def knotRunningSum_uniform)

lemma uniform_looping_table:
  "computeLoopingTValues points 0 padding
     = map (\<lambda>i. (i, real_of_int i)) [- padding..int (length points) + padding]"
  by (simp add: computeLoopingTValues_def knotIncrement_def knotRunningSum_uniform)

lemma GenericBSpline_uniform:
  fixes points :: "('v::real_normed_vector) list"
  assumes d: "0 < degree" and n: "nat degree < length points" "length points < 2 ^ 29"
  shows "GenericBSpline computeTValuesWithOuterPadding points degree =
    Inr \<lparr>positions = points,
         knots = map real_of_int [- (degree - 1)..int (length points) - 1 + (degree - 1)],
         splineDegree = degree\<rparr>"
proof -
  let ?P = "degree - 1" and ?n = "int (length points)"
  let ?tbl = "map (\<lambda>i. (i, real_of_int i)) [- ?P..?n - 1 + ?P]"
  have a: "of_nat (length points) > (of_int degree :: size_t)"
    using d n by (intro assert_holds) simp_all
  have size: "int_of_size_t (of_nat (length points)) = ?n"
    using n(2) by (rule int_of_size_t_of_nat)
  have len: "length ?tbl = nat (?n + ?P + ?P)"
    using d by simp
  have "nat (?n + ?P + ?P) = length points + 2 * nat ?P" using d by linarith
  also have "\<dots> < length points + 2 * nat ?P + 1" by simp
  finally have b64: "nat (?n + ?P + ?P) < 2 ^ 64"
    using knot_count_bound [OF n] by (rule order_less_trans)
  have "copyTValues ?tbl ?P (?n + ?P) (- ?P) (replicate (nat (?n + ?P + ?P)) 0) =
      Inr (take (nat (- ?P + ?P)) (replicate (nat (?n + ?P + ?P)) 0)
            @ map (map_index ?tbl) [- ?P..?n + ?P - 1]
            @ drop (nat (?n + ?P + ?P)) (replicate (nat (?n + ?P + ?P)) 0))"
  proof (rule copyTValues_content)
    show "0 \<le> - ?P + ?P" by simp
    show "- ?P \<le> ?n + ?P" using d by linarith
    show "nat (?n + ?P + ?P) \<le> length (replicate (nat (?n + ?P + ?P)) (0::real))" by simp
    show "nat (?n + ?P + ?P) < 2 ^ 64" by (rule b64)
  qed
  also have "\<dots> = Inr (map (map_index ?tbl) [- ?P..?n - 1 + ?P])"
    by (simp add: add.commute add_diff_eq)
  also have "map (map_index ?tbl) [- ?P..?n - 1 + ?P] = map real_of_int [- ?P..?n - 1 + ?P]"
    by (intro map_cong refl map_index_tabulate)
  finally have ks: "copyTValues ?tbl ?P (?n + ?P) (- ?P) (replicate (length ?tbl) 0)
      = Inr (map real_of_int [- ?P..?n - 1 + ?P])"
    unfolding len .
  show ?thesis
    unfolding GenericBSpline_def Let_def size uniform_table using a
    by (simp only: ks and_then_Inr simp_thms if_False)
qed

lemma LoopingGenericBSpline_uniform:
  fixes points :: "('v::real_normed_vector) list"
  assumes d: "0 < degree" and n: "nat degree < length points" "length points < 2 ^ 29"
  shows "LoopingGenericBSpline computeLoopingTValues points degree =
    Inr \<lparr>positions = points ! (length points - 1) # points @ take (nat (degree - 1)) points,
         knots = map real_of_int [- (degree - 1)..int (length points) + (degree - 1)],
         splineDegree = degree\<rparr>"
proof -
  let ?P = "degree - 1" and ?n = "int (length points)"
  let ?tbl = "map (\<lambda>i. (i, real_of_int i)) [- ?P..?n + ?P]"
  have a: "of_nat (length points) > (of_int degree :: size_t)"
    using d n by (intro assert_holds) simp_all
  have size: "int_of_size_t (of_nat (length points)) = ?n"
    using n(2) by (rule int_of_size_t_of_nat)
  have len: "length ?tbl = nat (?n + ?P + 1 + ?P)"
    using d by simp
  have "nat (?n + ?P + 1 + ?P) = length points + 2 * nat ?P + 1" using d by linarith
  then have b64: "nat (?n + ?P + 1 + ?P) < 2 ^ 64"
    using knot_count_bound [OF n] by simp
  have "copyTValues ?tbl ?P (?n + ?P + 1) (- ?P) (replicate (nat (?n + ?P + 1 + ?P)) 0) =
      Inr (take (nat (- ?P + ?P)) (replicate (nat (?n + ?P + 1 + ?P)) 0)
            @ map (map_index ?tbl) [- ?P..?n + ?P + 1 - 1]
            @ drop (nat (?n + ?P + 1 + ?P)) (replicate (nat (?n + ?P + 1 + ?P)) 0))"
  proof (rule copyTValues_content)
    show "0 \<le> - ?P + ?P" by simp
    show "- ?P \<le> ?n + ?P + 1" using d by linarith
    show "nat (?n + ?P + 1 + ?P) \<le> length (replicate (nat (?n + ?P + 1 + ?P)) (0::real))"
      by simp
    show "nat (?n + ?P + 1 + ?P) < 2 ^ 64" by (rule b64)
  qed
  also have "\<dots> = Inr (map (map_index ?tbl) [- ?P..?n + ?P])"
    by (simp add: add_diff_eq)
  also have "map (map_index ?tbl) [- ?P..?n + ?P] = map real_of_int [- ?P..?n + ?P]"
    by (intro map_cong refl map_index_tabulate)
  finally have ks: "copyTValues ?tbl ?P (?n + ?P + 1) (- ?P) (replicate (length ?tbl) 0)
      = Inr (map real_of_int [- ?P..?n + ?P])"
    unfolding len .
  show ?thesis
    unfolding LoopingGenericBSpline_def Let_def size uniform_looping_table using a
    by (simp only: looping_positions [OF d n] ks and_then_Inr simp_thms if_False)
qed

lemma sorted_uniform: "sorted (map real_of_int [a..b])"
  by (simp add: sorted_iff_nth_mono)

lemma uniform_nth:
  "k < length (map real_of_int [a..b]) \<Longrightarrow> map real_of_int [a..b] ! k = real_of_int (a + int k)"
  by simp

lemma uniform_span:
  assumes inv: "curve_inv c" and s: "s \<le> segmentCount c - 1"
    and ks: "knots c = map real_of_int [a..b]"
  shows "segmentStart c s < segmentEnd c s"
proof -
  note ci = curve_inner [OF inv s]
  from inv have "0 < nat (splineDegree c)"
    unfolding curve_inv_def by auto
  then show ?thesis
    unfolding segmentStart_def segmentEnd_def
    using ci(3,4) unfolding ks by (simp only: uniform_nth, simp?)
qed

lemma GenericBSpline_constructed:
  fixes points :: "('v::real_normed_vector) list"
  assumes d: "0 < degree" and n: "nat degree < length points" "length points < 2 ^ 29"
    and c: "GenericBSpline computeTValuesWithOuterPadding points degree = Inr c"
  shows "curve_inv c"
    and "s \<le> segmentCount c - 1 \<Longrightarrow> segmentStart c s < segmentEnd c s"
    and "knots c ! 0 \<le> 0"
proof -
  let ?P = "degree - 1" and ?n = "int (length points)"
  from c have c': "c = \<lparr>positions = points, knots = map real_of_int [- ?P..?n - 1 + ?P],
      splineDegree = degree\<rparr>"
    unfolding GenericBSpline_uniform [OF d n] by simp
  have len: "length (knots c) = length points + 2 * nat ?P"
    unfolding c' using d by simp
  have "length points + 2 * nat ?P < length points + 2 * nat ?P + 1" by simp
  then have i4: "length (knots c) < 2 ^ 64"
    unfolding len using knot_count_bound [OF n] by (rule order_less_trans)
  have i1: "0 < splineDegree c"
    unfolding c' using d by simp
  have i2: "nat (splineDegree c) < length (positions c)"
    unfolding c' using n(1) by simp
  have i3: "length (positions c) + nat (splineDegree c) - 1 \<le> length (knots c)"
    unfolding len unfolding c' using d by simp
  have i5: "sorted (knots c)"
    unfolding c' by (simp add: sorted_uniform)
  show inv: "curve_inv c"
    unfolding curve_inv_def using i1 i2 i3 i4 i5 by blast
  show "segmentStart c s < segmentEnd c s" if "s \<le> segmentCount c - 1"
    using inv that by (rule uniform_span) (simp add: c')
  have "0 < length (knots c)" unfolding len using n(1) by linarith
  then show "knots c ! 0 \<le> 0"
    unfolding c' using d by simp
qed

lemma LoopingGenericBSpline_constructed:
  fixes points :: "('v::real_normed_vector) list"
  assumes d: "0 < degree" and n: "nat degree < length points" "length points < 2 ^ 29"
    and c: "LoopingGenericBSpline computeLoopingTValues points degree = Inr c"
  shows "curve_inv c"
    and "s \<le> segmentCount c - 1 \<Longrightarrow> segmentStart c s < segmentEnd c s"
    and "knots c ! 0 \<le> 0"
proof -
  let ?P = "degree - 1" and ?n = "int (length points)"
  from c have c': "c = \<lparr>positions = points ! (length points - 1) # points @ take (nat ?P) points,
      knots = map real_of_int [- ?P..?n + ?P], splineDegree = degree\<rparr>"
    unfolding LoopingGenericBSpline_uniform [OF d n] by simp
  have len: "length (knots c) = length points + 2 * nat ?P + 1"
    unfolding c' using d by simp
  have lp: "length (positions c) = length points + nat degree"
    unfolding c' using d n(1) by (auto simp: nat_diff_distrib)
  have i4: "length (knots c) < 2 ^ 64"
    unfolding len by (rule knot_count_bound [OF n])
  have i1: "0 < splineDegree c"
    unfolding c' using d by simp
  have sd: "splineDegree c = degree"
    unfolding c' by simp
  have i2: "nat (splineDegree c) < length (positions c)"
    unfolding lp sd using n(1) by linarith
  have i3: "length (positions c) + nat (splineDegree c) - 1 \<le> length (knots c)"
    unfolding len lp sd using d by linarith
  have i5: "sorted (knots c)"
    unfolding c' by (simp add: sorted_uniform)
  show inv: "curve_inv c"
    unfolding curve_inv_def using i1 i2 i3 i4 i5 by blast
  show "segmentStart c s < segmentEnd c s" if "s \<le> segmentCount c - 1"
    using inv that by (rule uniform_span) (simp add: c')
  show "knots c ! 0 \<le> 0"
    unfolding c' using d by simp
qed

text \<open>
  So on every curve that either constructor builds, the position recursion of the
  specification is what \<open>getPosition\<close> returns for every \<open>t\<close>, whatever the locator's search
  returns.
\<close>

lemma constructed_getPosition:
  fixes points :: "('v::real_normed_vector) list"
  assumes d: "0 < degree" and n: "nat degree < length points" "length points < 2 ^ 29"
    and c: "GenericBSpline computeTValuesWithOuterPadding points degree = Inr c
      \<or> LoopingGenericBSpline computeLoopingTValues points degree = Inr c"
  shows "getPosition gi c t =
    Inr (deBoor_spec (indexed (positions c)) (indexed (knots c)) (splineDegree c)
           (uint (segmentForT gi c t) + splineDegree c) (nat (splineDegree c)) t)"
proof -
  have inv: "curve_inv c"
    using c GenericBSpline_constructed(1) [OF d n] LoopingGenericBSpline_constructed(1) [OF d n]
    by blast
  have s: "segmentForT gi c t \<le> segmentCount c - 1"
    using curve_segmentCount(2) [OF inv] by (rule segmentForT_le)
  have "segmentStart c (segmentForT gi c t) < segmentEnd c (segmentForT gi c t)"
    using c s GenericBSpline_constructed(2) [OF d n] LoopingGenericBSpline_constructed(2) [OF d n]
    by blast
  from top_computeDeboor [OF inv s this] show ?thesis
    by (simp add: getPosition_def Let_def)
qed

section \<open>The examples\<close>

lemma quadratic_example_constructed:
  "GenericBSpline computeTValuesWithOuterPadding [0, 1, 3, 2 :: real] 2 = Inr quadratic_example"
  by code_simp

lemma quadratic_example_inv: "curve_inv quadratic_example"
  by (simp add: curve_inv_def quadratic_example_def)

lemma quadratic_example_segments:
  "(0 :: size_t) \<le> segmentCount quadratic_example - 1"
  "(1 :: size_t) \<le> segmentCount quadratic_example - 1"
  "segmentCount quadratic_example \<noteq> 0"
  by code_simp+

lemma quadratic_example_spans:
  "segmentStart quadratic_example 0 < segmentEnd quadratic_example 0"
  "segmentStart quadratic_example 1 < segmentEnd quadratic_example 1"
  by (simp_all add: segmentStart_def segmentEnd_def quadratic_example_def)

lemma quadratic_example_degree: "splineDegree quadratic_example = 2"
  by (simp add: quadratic_example_def)

lemma degenerate_example_inv: "curve_inv degenerate_example"
  by (simp add: curve_inv_def degenerate_example_def)

lemma degenerate_example_segments:
  "(0 :: size_t) \<le> segmentCount degenerate_example - 1"
  "(1 :: size_t) \<le> segmentCount degenerate_example - 1"
  by code_simp+

lemma example_tables:
  "length [0, 1, 3, 2 :: real] + 2 * nat (2 - 1)
     \<le> length (computeTValuesWithOuterPadding [0, 1, 3, 2 :: real] 0 (2 - 1))"
  "length [0, 1, 3, 2 :: real] + 2 * nat (2 - 1) + 1
     \<le> length (computeLoopingTValues [0, 1, 3, 2 :: real] 0 (2 - 1))"
  by (simp_all add: uniform_table uniform_looping_table)

section \<open>The position recursion\<close>

text \<open>
  Claim C1. On a constructed curve, for a query parameter \<open>t\<close> whose located segment has
  a positive knot span, \<open>getPosition\<close> returns the value of the classical de Boor
  recursion as the specification words it, started at the knot index
  \<open>segmentForT t + splineDegree\<close> and at the degree of the spline: the stored position at
  degree 0, and at degree \<open>d > 0\<close> the blend \<open>leftValue * (1 - alpha) + rightValue * alpha\<close>
  of the two values of degree \<open>d - 1\<close> at \<open>i - 1\<close> and \<open>i\<close>, with
  \<open>alpha = (t - knot[i-1]) / (knot[i + splineDegree - d] - knot[i-1])\<close>.
\<close>

theorem getPosition_is_deBoor:
  fixes c :: "('v::real_vector) GenericBSplineCommon"
  assumes "curve_inv c"
    and "segmentStart c (segmentForT gi c t) < segmentEnd c (segmentForT gi c t)"
  shows "getPosition gi c t =
    Inr (deBoor_spec (indexed (positions c)) (indexed (knots c)) (splineDegree c)
           (uint (segmentForT gi c t) + splineDegree c) (nat (splineDegree c)) t)"
proof -
  have "segmentForT gi c t \<le> segmentCount c - 1"
    using curve_segmentCount(2) [OF assms(1)] by (rule segmentForT_le)
  from top_computeDeboor [OF assms(1) this assms(2)] show ?thesis
    by (simp add: getPosition_def Let_def)
qed

theorem getPosition_is_deBoor_witness:
  "curve_inv quadratic_example
   \<and> segmentStart quadratic_example (segmentForT getIndexForT quadratic_example (1 / 2))
       < segmentEnd quadratic_example (segmentForT getIndexForT quadratic_example (1 / 2))
   \<and> getPosition getIndexForT quadratic_example (1 / 2) = Inr (9 / 8)"
proof -
  have s: "segmentForT getIndexForT quadratic_example (1 / 2) = 0"
    by code_simp
  have h: "segmentStart quadratic_example (segmentForT getIndexForT quadratic_example (1 / 2))
      < segmentEnd quadratic_example (segmentForT getIndexForT quadratic_example (1 / 2))"
    unfolding s by (simp add: segmentStart_def segmentEnd_def quadratic_example_def)
  have v: "deBoor_spec (indexed (positions quadratic_example))
      (indexed (knots quadratic_example)) 2 2 2 (1 / 2) = 9 / 8"
    by code_simp
  have d: "splineDegree quadratic_example = 2"
    by (simp add: quadratic_example_def)
  show ?thesis
    using getPosition_is_deBoor [OF quadratic_example_inv h] h quadratic_example_inv
    unfolding s d by (simp add: v)
qed

text \<open>
  Claim C2, as amended. An out-of-range query is not clamped to the end of the parameter
  range: only the segment index is. For \<open>t < 0\<close>, \<open>getPosition t\<close> is the de Boor
  recursion of the first segment evaluated at \<open>t\<close> itself, and for a \<open>t\<close> whose located index
  exceeds \<open>segmentCount - 1\<close> it is the de Boor recursion of the last segment evaluated at
  \<open>t\<close> itself (each where that segment has a positive knot span): the polynomial of the
  boundary segment is extrapolated.
\<close>

theorem getPosition_extrapolates:
  fixes c :: "('v::real_vector) GenericBSplineCommon"
  assumes "curve_inv c"
  shows "(t < 0 \<and> segmentStart c 0 < segmentEnd c 0 \<longrightarrow>
           getPosition gi c t =
             Inr (deBoor_spec (indexed (positions c)) (indexed (knots c)) (splineDegree c)
                    (splineDegree c) (nat (splineDegree c)) t))
    \<and> (\<not> t < 0 \<and> segmentCount c - 1 < gi (knots c) t - of_int (splineDegree c - 1)
         \<and> segmentStart c (segmentCount c - 1) < segmentEnd c (segmentCount c - 1) \<longrightarrow>
           getPosition gi c t =
             Inr (deBoor_spec (indexed (positions c)) (indexed (knots c)) (splineDegree c)
                    (uint (segmentCount c - 1) + splineDegree c) (nat (splineDegree c)) t))"
proof -
  have low: "getPosition gi c t =
      Inr (deBoor_spec (indexed (positions c)) (indexed (knots c)) (splineDegree c)
             (splineDegree c) (nat (splineDegree c)) t)"
    if "t < 0" and span: "segmentStart c 0 < segmentEnd c 0"
  proof -
    have s: "segmentForT gi c t = 0"
      using that(1) by (simp add: segmentForT_def)
    have "(0 :: size_t) \<le> segmentCount c - 1" by simp
    from top_computeDeboor [OF assms this span, of t] show ?thesis
      unfolding getPosition_def Let_def s by simp
  qed
  have high: "getPosition gi c t =
      Inr (deBoor_spec (indexed (positions c)) (indexed (knots c)) (splineDegree c)
             (uint (segmentCount c - 1) + splineDegree c) (nat (splineDegree c)) t)"
    if "\<not> t < 0" and "segmentCount c - 1 < gi (knots c) t - of_int (splineDegree c - 1)"
      and span: "segmentStart c (segmentCount c - 1) < segmentEnd c (segmentCount c - 1)"
  proof -
    have s: "segmentForT gi c t = segmentCount c - 1"
      using that(1,2) by (simp add: segmentForT_def Let_def)
    from top_computeDeboor [OF assms order_refl span, of t] show ?thesis
      unfolding getPosition_def Let_def s by simp
  qed
  from low high show ?thesis by blast
qed

theorem getPosition_extrapolates_witness:
  "curve_inv quadratic_example
   \<and> (- 1 :: real) < 0 \<and> segmentStart quadratic_example 0 < segmentEnd quadratic_example 0
   \<and> getPosition getIndexForT quadratic_example (- 1) = Inr 0
   \<and> \<not> (7 :: real) < 0
   \<and> segmentCount quadratic_example - 1
        < getIndexForT (knots quadratic_example) 7 - of_int (splineDegree quadratic_example - 1)
   \<and> segmentStart quadratic_example (segmentCount quadratic_example - 1)
        < segmentEnd quadratic_example (segmentCount quadratic_example - 1)
   \<and> getPosition getIndexForT quadratic_example 7 = Inr (- 40)"
proof -
  have g: "segmentCount quadratic_example - 1
      < getIndexForT (knots quadratic_example) 7 - of_int (splineDegree quadratic_example - 1)"
    by code_simp
  have l: "segmentCount quadratic_example - 1 = 1"
    by code_simp
  have v: "deBoor_spec (indexed (positions quadratic_example))
      (indexed (knots quadratic_example)) 2 2 (nat 2) (- 1) = 0"
    "deBoor_spec (indexed (positions quadratic_example))
      (indexed (knots quadratic_example)) 2 (uint (1 :: size_t) + 2) (nat 2) 7 = - 40"
    by code_simp+
  show ?thesis
    using getPosition_extrapolates [OF quadratic_example_inv, of "- 1" getIndexForT]
      getPosition_extrapolates [OF quadratic_example_inv, of 7 getIndexForT]
      quadratic_example_inv quadratic_example_spans g
    unfolding l quadratic_example_degree v by simp
qed

text \<open>
  Claim C2, as stated, fails on the quadratic example, whose parameter range is
  \<open>[0, 2]\<close>: the position at \<open>- 1\<close> differs from the position at the minimum \<open>0\<close>, and the
  position at \<open>7\<close> differs from the position at the maximum \<open>2\<close>.
\<close>

theorem clamp_counterexample:
  "getPosition getIndexForT quadratic_example (- 1) = Inr 0
   \<and> getPosition getIndexForT quadratic_example 0 = Inr (1 / 2)
   \<and> getPosition getIndexForT quadratic_example (- 1) \<noteq> getPosition getIndexForT quadratic_example 0
   \<and> getPosition getIndexForT quadratic_example 7 = Inr (- 40)
   \<and> getPosition getIndexForT quadratic_example 2 = Inr (5 / 2)
   \<and> getPosition getIndexForT quadratic_example 7 \<noteq> getPosition getIndexForT quadratic_example 2"
  by code_simp

section \<open>The derivative recursion\<close>

text \<open>
  Claim C3. On a constructed curve, for a segment with a positive knot span and a
  derivative level \<open>m \<ge> 1\<close>, the derivative computation that the queries start at the knot
  index \<open>s + splineDegree\<close> and at the degree of the spline returns the value of the
  derivative recursion as the specification words it: at degree \<open>d > 0\<close> the multiplier
  \<open>d / (knot[i + splineDegree - d] - knot[i-1])\<close> times the difference of the position
  recursion of degree \<open>d - 1\<close> at \<open>i\<close> and \<open>i - 1\<close> when the level is 1, and times the
  difference of the derivative recursion of level \<open>m - 1\<close> at \<open>i\<close> and \<open>i - 1\<close> when the
  level is greater.
\<close>

theorem derivative_is_deBoorDerivative:
  fixes c :: "('v::real_vector) GenericBSplineCommon"
  assumes "curve_inv c" and "s \<le> segmentCount c - 1"
    and "segmentStart c s < segmentEnd c s" and "1 \<le> m"
  shows "computeDeboorDerivative c (s + of_int (splineDegree c - 1) + 1) (splineDegree c) t (int m) =
    Inr (deBoorDerivative_spec (indexed (positions c)) (indexed (knots c)) (splineDegree c)
           (uint s + splineDegree c) (nat (splineDegree c)) m t)"
  using assms by (rule top_computeDeboorDerivative)

theorem derivative_is_deBoorDerivative_witness:
  "curve_inv quadratic_example \<and> (1 :: size_t) \<le> segmentCount quadratic_example - 1
   \<and> segmentStart quadratic_example 1 < segmentEnd quadratic_example 1 \<and> (1 :: nat) \<le> 2
   \<and> computeDeboorDerivative quadratic_example (1 + of_int (2 - 1) + 1) 2 (3 / 2) (int 2)
       = Inr (- 3)"
proof -
  have v: "deBoorDerivative_spec (indexed (positions quadratic_example))
      (indexed (knots quadratic_example)) 2 (uint (1 :: size_t) + 2) (nat 2) 2 (3 / 2) = - 3"
    by code_simp
  have m: "(1 :: nat) \<le> 2" by simp
  show ?thesis
    using derivative_is_deBoorDerivative [OF quadratic_example_inv quadratic_example_segments(2)
        quadratic_example_spans(2) m, of "3 / 2"]
      quadratic_example_inv quadratic_example_segments(2) quadratic_example_spans(2)
    unfolding quadratic_example_degree v by simp
qed

text \<open>
  Claim C5. On a constructed curve, for a segment with a positive knot span, every
  derivative level above the degree of the spline is computed as the zero vector, and the
  computation does not fail.
\<close>

theorem derivative_above_degree_is_zero:
  fixes c :: "('v::real_vector) GenericBSplineCommon"
  assumes "curve_inv c" and "s \<le> segmentCount c - 1"
    and "segmentStart c s < segmentEnd c s" and "splineDegree c < m"
  shows "computeDeboorDerivative c (s + of_int (splineDegree c - 1) + 1) (splineDegree c) t m = Inr 0"
proof -
  from assms(1) have D0: "0 < splineDegree c"
    unfolding curve_inv_def by auto
  with assms(4) have m: "m = int (nat m)" "1 \<le> nat m" "nat (splineDegree c) < nat m"
    by linarith+
  have "computeDeboorDerivative c (s + of_int (splineDegree c - 1) + 1) (splineDegree c) t (int (nat m)) = Inr 0"
    unfolding top_computeDeboorDerivative [OF assms(1-3) m(2)]
    by (simp only: deBoorDerivative_spec_zero [OF m(3)])
  then show ?thesis
    using m(1) by simp
qed

theorem derivative_above_degree_is_zero_witness:
  "curve_inv quadratic_example \<and> (1 :: size_t) \<le> segmentCount quadratic_example - 1
   \<and> segmentStart quadratic_example 1 < segmentEnd quadratic_example 1
   \<and> splineDegree quadratic_example < 3
   \<and> computeDeboorDerivative quadratic_example (1 + of_int (2 - 1) + 1) 2 (3 / 2) 3 = Inr 0"
proof -
  have m: "splineDegree quadratic_example < 3"
    by (simp add: quadratic_example_def)
  show ?thesis
    using derivative_above_degree_is_zero [OF quadratic_example_inv quadratic_example_segments(2)
        quadratic_example_spans(2) m, of "3 / 2"]
      quadratic_example_inv quadratic_example_segments(2) quadratic_example_spans(2) m
    unfolding quadratic_example_degree by simp
qed

section \<open>Division by a zero knot span\<close>

text \<open>
  Claim C4, as amended. Neither recursion has a guard: each divides by its knot span at
  every level. On a constructed curve (non-decreasing knots) the four queries divide by
  zero at no level and return a value when the segment that \<open>segmentForT\<close> selects has a
  positive knot span; when that segment has a zero knot span, the first division of each
  query is a division by zero.
\<close>

theorem division_by_zero_iff_zero_span:
  fixes c :: "('v::real_vector) GenericBSplineCommon"
  assumes "curve_inv c"
  shows "(segmentStart c (segmentForT gi c t) < segmentEnd c (segmentForT gi c t) \<longrightarrow>
           (\<exists>p. getPosition gi c t = Inr p) \<and> (\<exists>r. getTangent gi c t = Inr r)
           \<and> (\<exists>r. getCurvature gi c t = Inr r) \<and> (\<exists>r. getWiggle gi c t = Inr r))
    \<and> (segmentStart c (segmentForT gi c t) = segmentEnd c (segmentForT gi c t) \<longrightarrow>
           getPosition gi c t = Inl DivisionByZero \<and> getTangent gi c t = Inl DivisionByZero
           \<and> getCurvature gi c t = Inl DivisionByZero \<and> getWiggle gi c t = Inl DivisionByZero)"
proof -
  let ?s = "segmentForT gi c t"
  let ?i = "?s + of_int (splineDegree c - 1) + 1"
  have s: "?s \<le> segmentCount c - 1"
    using curve_segmentCount(2) [OF assms] by (rule segmentForT_le)
  have pos: "(\<exists>p. getPosition gi c t = Inr p) \<and> (\<exists>r. getTangent gi c t = Inr r)
      \<and> (\<exists>r. getCurvature gi c t = Inr r) \<and> (\<exists>r. getWiggle gi c t = Inr r)"
    if span: "segmentStart c ?s < segmentEnd c ?s"
  proof -
    let ?P = "indexed (positions c)" and ?K = "indexed (knots c)"
    let ?j = "uint ?s + splineDegree c" and ?D = "nat (splineDegree c)"
    note P = top_computeDeboor [OF assms s span, of t]
    have D1: "computeDeboorDerivative c ?i (splineDegree c) t 1
        = Inr (deBoorDerivative_spec ?P ?K (splineDegree c) ?j ?D 1 t)"
      using top_computeDeboorDerivative [OF assms s span, of 1 t] by simp
    have D2: "computeDeboorDerivative c ?i (splineDegree c) t 2
        = Inr (deBoorDerivative_spec ?P ?K (splineDegree c) ?j ?D 2 t)"
      using top_computeDeboorDerivative [OF assms s span, of 2 t] by simp
    have D3: "computeDeboorDerivative c ?i (splineDegree c) t 3
        = Inr (deBoorDerivative_spec ?P ?K (splineDegree c) ?j ?D 3 t)"
      using top_computeDeboorDerivative [OF assms s span, of 3 t] by simp
    show ?thesis
      unfolding getPosition_def getTangent_def getCurvature_def getWiggle_def Let_def
      by (simp only: P D1 D2 D3 and_then_Inr) blast
  qed
  have zero: "getPosition gi c t = Inl DivisionByZero \<and> getTangent gi c t = Inl DivisionByZero
      \<and> getCurvature gi c t = Inl DivisionByZero \<and> getWiggle gi c t = Inl DivisionByZero"
    if span: "segmentStart c ?s = segmentEnd c ?s"
    unfolding getPosition_def getTangent_def getCurvature_def getWiggle_def Let_def
    by (simp only: top_zero_span [OF assms s span] and_then_Inl simp_thms)
  from pos zero show ?thesis by blast
qed

theorem division_by_zero_iff_zero_span_witness:
  "curve_inv quadratic_example
   \<and> segmentStart quadratic_example (segmentForT getIndexForT quadratic_example (1 / 2))
       < segmentEnd quadratic_example (segmentForT getIndexForT quadratic_example (1 / 2))
   \<and> (\<exists>p. getPosition getIndexForT quadratic_example (1 / 2) = Inr p)
   \<and> (\<exists>r. getTangent getIndexForT quadratic_example (1 / 2) = Inr r)
   \<and> (\<exists>r. getCurvature getIndexForT quadratic_example (1 / 2) = Inr r)
   \<and> (\<exists>r. getWiggle getIndexForT quadratic_example (1 / 2) = Inr r)
   \<and> curve_inv degenerate_example
   \<and> segmentStart degenerate_example (segmentForT getIndexForT degenerate_example 1)
       = segmentEnd degenerate_example (segmentForT getIndexForT degenerate_example 1)
   \<and> getPosition getIndexForT degenerate_example 1 = Inl DivisionByZero
   \<and> getTangent getIndexForT degenerate_example 1 = Inl DivisionByZero
   \<and> getCurvature getIndexForT degenerate_example 1 = Inl DivisionByZero
   \<and> getWiggle getIndexForT degenerate_example 1 = Inl DivisionByZero"
proof -
  have s: "segmentForT getIndexForT quadratic_example (1 / 2) = 0"
    "segmentForT getIndexForT degenerate_example 1 = 1"
    by code_simp+
  have z: "segmentStart degenerate_example 1 = segmentEnd degenerate_example 1"
    by (simp add: segmentStart_def segmentEnd_def degenerate_example_def)
  show ?thesis
    using division_by_zero_iff_zero_span [OF quadratic_example_inv, of getIndexForT "1 / 2"]
      division_by_zero_iff_zero_span [OF degenerate_example_inv, of getIndexForT 1]
      quadratic_example_inv degenerate_example_inv quadratic_example_spans(1) z
    unfolding s by simp
qed

text \<open>
  Claim C4, as stated, fails on the degenerate example: the query at the end of its
  parameter range, \<open>t = 1\<close>, is located in the last segment, whose knot span is zero, and
  divides by it.
\<close>

theorem division_by_zero_counterexample:
  "curve_inv degenerate_example
   \<and> getPosition getIndexForT degenerate_example 1 = Inl DivisionByZero"
proof -
  have "getPosition getIndexForT degenerate_example 1 = Inl DivisionByZero"
    by code_simp
  with degenerate_example_inv show ?thesis by simp
qed

section \<open>Arc length of a segment\<close>

text \<open>
  Claim C6. On a constructed curve and for each of its segments, \<open>segmentLength\<close>
  returns 0 when the knot span of the segment is zero, whatever the quadrature routine is
  (it is not called, and no tangent is computed); otherwise it returns the quadrature,
  over \<open>[a, b]\<close>, of the magnitude of the first derivative on that segment.
\<close>

theorem segmentLength_guard:
  fixes c :: "('v::real_normed_vector) GenericBSplineCommon"
  assumes "curve_inv c" and "s \<le> segmentCount c - 1"
  shows "(segmentEnd c s - segmentStart c s = 0 \<longrightarrow> segmentLength Q c s a b = Inr 0)
    \<and> (segmentEnd c s - segmentStart c s \<noteq> 0 \<longrightarrow>
         segmentLength Q c s a b =
           Q (\<lambda>t. Inr (norm (deBoorDerivative_spec (indexed (positions c)) (indexed (knots c))
                (splineDegree c) (uint s + splineDegree c) (nat (splineDegree c)) 1 t))) a b)"
proof -
  let ?inner = "s + of_int (splineDegree c) - 1"
  note ci = curve_inner [OF assms]
  have k1: "vector_at (knots c) (?inner + 1) = Inr (segmentEnd c s)"
    unfolding ci(1) vector_at_def curve_top(1) [OF assms] segmentEnd_def
    using ci(4) by simp
  have k0: "vector_at (knots c) ?inner = Inr (segmentStart c s)"
    unfolding vector_at_def ci(2) segmentStart_def
    using ci(3) by simp
  have unfold: "segmentLength Q c s a b =
      (if segmentEnd c s - segmentStart c s > 0 then Q (segmentFunction c ?inner) a b else Inr 0)"
    unfolding segmentLength_def Let_def by (simp only: k0 k1 and_then_Inr)
  have zero: "segmentLength Q c s a b = Inr 0" if "segmentEnd c s - segmentStart c s = 0"
    unfolding unfold using that by simp
  have pos: "segmentLength Q c s a b =
      Q (\<lambda>t. Inr (norm (deBoorDerivative_spec (indexed (positions c)) (indexed (knots c))
                (splineDegree c) (uint s + splineDegree c) (nat (splineDegree c)) 1 t))) a b"
    if ne: "segmentEnd c s - segmentStart c s \<noteq> 0"
  proof -
    from ne ci(5) have span: "segmentStart c s < segmentEnd c s" by linarith
    have "segmentFunction c ?inner =
        (\<lambda>t. Inr (norm (deBoorDerivative_spec (indexed (positions c)) (indexed (knots c))
                (splineDegree c) (uint s + splineDegree c) (nat (splineDegree c)) 1 t)))"
    proof
      fix t
      have "computeDeboorDerivative c (?inner + 1) (splineDegree c) t (int 1) =
          Inr (deBoorDerivative_spec (indexed (positions c)) (indexed (knots c)) (splineDegree c)
                (uint s + splineDegree c) (nat (splineDegree c)) 1 t)"
        unfolding ci(1) by (rule top_computeDeboorDerivative [OF assms span order_refl])
      then show "segmentFunction c ?inner t =
          Inr (norm (deBoorDerivative_spec (indexed (positions c)) (indexed (knots c))
                (splineDegree c) (uint s + splineDegree c) (nat (splineDegree c)) 1 t))"
        unfolding segmentFunction_def by simp
    qed
    then show ?thesis
      unfolding unfold using span by simp
  qed
  from zero pos show ?thesis by blast
qed

theorem segmentLength_guard_witness:
  "curve_inv degenerate_example
   \<and> (1 :: size_t) \<le> segmentCount degenerate_example - 1
   \<and> segmentEnd degenerate_example 1 - segmentStart degenerate_example 1 = 0
   \<and> segmentLength gaussLegendreOnePoint degenerate_example 1 0 1 = Inr 0
   \<and> (0 :: size_t) \<le> segmentCount degenerate_example - 1
   \<and> segmentEnd degenerate_example 0 - segmentStart degenerate_example 0 \<noteq> 0
   \<and> segmentLength gaussLegendreOnePoint degenerate_example 0 0 1 = Inr 1"
proof -
  have z: "segmentEnd degenerate_example 1 - segmentStart degenerate_example 1 = 0"
    "segmentEnd degenerate_example 0 - segmentStart degenerate_example 0 \<noteq> 0"
    by (simp_all add: segmentStart_def segmentEnd_def degenerate_example_def)
  have d: "splineDegree degenerate_example = 1"
    by (simp add: degenerate_example_def)
  show ?thesis
    using segmentLength_guard [OF degenerate_example_inv degenerate_example_segments(2),
        of gaussLegendreOnePoint 0 1]
      segmentLength_guard [OF degenerate_example_inv degenerate_example_segments(1),
        of gaussLegendreOnePoint 0 1]
      degenerate_example_inv degenerate_example_segments z
    unfolding d by (simp add: gaussLegendreOnePoint_def indexed_def degenerate_example_def)
qed

section \<open>The segment locator\<close>

text \<open>
  Claim C7. On a curve with at least one segment whose first knot is not positive (as in
  every curve the constructors build), \<open>segmentForT\<close> returns, for every \<open>t\<close>, an index of
  at most \<open>segmentCount - 1\<close>; a \<open>t\<close> below the first knot gives segment 0, and a computed
  index above \<open>segmentCount - 1\<close> gives \<open>segmentCount - 1\<close>. The locator is a total
  function of the index that \<open>getIndexForT\<close> returns.
\<close>

theorem segmentForT_clamped:
  assumes "segmentCount c \<noteq> 0" and "knots c ! 0 \<le> 0"
  shows "segmentForT gi c t \<le> segmentCount c - 1
    \<and> (t < knots c ! 0 \<longrightarrow> segmentForT gi c t = 0)
    \<and> (\<not> t < 0 \<and> segmentCount c - 1 < gi (knots c) t - of_int (splineDegree c - 1)
         \<longrightarrow> segmentForT gi c t = segmentCount c - 1)"
  using assms by (auto simp: segmentForT_def Let_def)

theorem segmentForT_clamped_witness:
  "segmentCount quadratic_example \<noteq> 0 \<and> knots quadratic_example ! 0 \<le> 0
   \<and> segmentForT getIndexForT quadratic_example (- 3 / 2) \<le> segmentCount quadratic_example - 1
   \<and> - 3 / 2 < knots quadratic_example ! 0
   \<and> segmentForT getIndexForT quadratic_example (- 3 / 2) = 0
   \<and> \<not> (7 :: real) < 0
   \<and> segmentCount quadratic_example - 1
        < getIndexForT (knots quadratic_example) 7 - of_int (splineDegree quadratic_example - 1)
   \<and> segmentForT getIndexForT quadratic_example 7 = segmentCount quadratic_example - 1"
proof -
  have k: "knots quadratic_example ! 0 \<le> 0" "- 3 / 2 < knots quadratic_example ! 0"
    by (simp_all add: quadratic_example_def)
  have g: "segmentCount quadratic_example - 1
      < getIndexForT (knots quadratic_example) 7 - of_int (splineDegree quadratic_example - 1)"
    by code_simp
  show ?thesis
    using segmentForT_clamped [OF quadratic_example_segments(3) k(1), of getIndexForT "- 3 / 2"]
      segmentForT_clamped [OF quadratic_example_segments(3) k(1), of getIndexForT 7]
      quadratic_example_segments(3) k g
    by simp
qed

section \<open>Construction\<close>

text \<open>
  Claim C8. For a degree \<open>d > 0\<close> and more than \<open>d\<close> control points (fewer than \<open>2 ^ 29\<close>,
  see \<open>constructor_ints_fit\<close>), both constructors return a curve, and its \<open>segmentCount\<close>
  is the number of points minus \<open>d\<close> for \<open>GenericBSpline\<close> and the number of points for
  \<open>LoopingGenericBSpline\<close>. The knot builders are parameters; they return at least the
  knots that the constructors copy.
\<close>

theorem segmentCount_of_constructed:
  fixes points :: "('v::zero) list"
  assumes "0 < degree" and "nat degree < length points" and "length points < 2 ^ 29"
    and "length points + 2 * nat (degree - 1) \<le> length (tValues points 0 (degree - 1))"
    and "length points + 2 * nat (degree - 1) + 1 \<le> length (loopingTValues points 0 (degree - 1))"
  shows "(\<exists>c. GenericBSpline tValues points degree = Inr c
            \<and> unat (segmentCount c) = length points - nat degree)
    \<and> (\<exists>c. LoopingGenericBSpline loopingTValues points degree = Inr c
            \<and> unat (segmentCount c) = length points)"
proof -
  let ?n = "length points"
  have n64: "?n < 2 ^ 64" using assms(3) p29_64 by (rule order_less_trans)
  have "?n + nat degree \<le> ?n + 2 * nat (degree - 1) + 1" using assms(1) by linarith
  then have nd64: "?n + nat degree < 2 ^ 64"
    using knot_count_bound [OF assms(2,3)] by (rule le_less_trans)
  obtain c where c: "GenericBSpline tValues points degree = Inr c" "positions c = points"
    "splineDegree c = degree"
    using GenericBSpline_returns [where tValues = tValues, OF assms(1-4)] by blast
  have "unat (segmentCount c) = ?n - nat degree"
    unfolding segmentCount_def c(2,3) using assms(1,2) n64
    by (intro unat_size_minus_degree) simp_all
  with c(1) have open_curve: "\<exists>c. GenericBSpline tValues points degree = Inr c
      \<and> unat (segmentCount c) = ?n - nat degree"
    by blast
  obtain c' where c': "LoopingGenericBSpline loopingTValues points degree = Inr c'"
    "positions c' = points ! (?n - 1) # points @ take (nat (degree - 1)) points"
    "splineDegree c' = degree"
    using LoopingGenericBSpline_returns [where tValues = loopingTValues, OF assms(1-3,5)] by blast
  have l: "length (positions c') = ?n + nat degree"
    unfolding c'(2) using assms(1,2) by (simp add: nat_diff_distrib)
  have "unat (segmentCount c') = ?n + nat degree - nat degree"
    unfolding segmentCount_def l c'(3) using assms(1) nd64
    by (intro unat_size_minus_degree) simp_all
  with c'(1) have "\<exists>c. LoopingGenericBSpline loopingTValues points degree = Inr c
      \<and> unat (segmentCount c) = ?n"
    by auto
  with open_curve show ?thesis by blast
qed

theorem segmentCount_of_constructed_witness:
  "(0 :: int) < 2 \<and> nat 2 < length [0, 1, 3, 2 :: real] \<and> length [0, 1, 3, 2 :: real] < 2 ^ 29
   \<and> length [0, 1, 3, 2 :: real] + 2 * nat (2 - 1)
       \<le> length (computeTValuesWithOuterPadding [0, 1, 3, 2 :: real] 0 (2 - 1))
   \<and> length [0, 1, 3, 2 :: real] + 2 * nat (2 - 1) + 1
       \<le> length (computeLoopingTValues [0, 1, 3, 2 :: real] 0 (2 - 1))
   \<and> (\<exists>c. GenericBSpline computeTValuesWithOuterPadding [0, 1, 3, 2 :: real] 2 = Inr c
          \<and> unat (segmentCount c) = length [0, 1, 3, 2 :: real] - nat 2)
   \<and> (\<exists>c. LoopingGenericBSpline computeLoopingTValues [0, 1, 3, 2 :: real] 2 = Inr c
          \<and> unat (segmentCount c) = length [0, 1, 3, 2 :: real])"
proof -
  have h: "(0 :: int) < 2" "nat 2 < length [0, 1, 3, 2 :: real]"
    "length [0, 1, 3, 2 :: real] < 2 ^ 29"
    by simp_all
  show ?thesis
    using segmentCount_of_constructed [where tValues = computeTValuesWithOuterPadding
        and loopingTValues = computeLoopingTValues, OF h example_tables] h example_tables
    by blast
qed

text \<open>
  Claim C9. With at most \<open>degree\<close> control points both constructors fail with the
  assertion; with a positive degree and more control points than the degree both return a
  curve.
\<close>

theorem construction_precondition:
  fixes points :: "('v::zero) list"
  shows "(int (length points) \<le> degree \<and> degree < 2 ^ 31 \<longrightarrow>
           GenericBSpline tValues points degree = Inl AssertionFailed
           \<and> LoopingGenericBSpline loopingTValues points degree = Inl AssertionFailed)
    \<and> (0 < degree \<and> nat degree < length points \<and> length points < 2 ^ 29
         \<and> length points + 2 * nat (degree - 1) \<le> length (tValues points 0 (degree - 1))
         \<and> length points + 2 * nat (degree - 1) + 1
              \<le> length (loopingTValues points 0 (degree - 1)) \<longrightarrow>
           (\<exists>c. GenericBSpline tValues points degree = Inr c)
           \<and> (\<exists>c. LoopingGenericBSpline loopingTValues points degree = Inr c))"
proof -
  have fails: "GenericBSpline tValues points degree = Inl AssertionFailed
      \<and> LoopingGenericBSpline loopingTValues points degree = Inl AssertionFailed"
    if "int (length points) \<le> degree" and "degree < 2 ^ 31"
    using assert_fails [OF that]
    by (simp add: GenericBSpline_def LoopingGenericBSpline_def)
  have succeeds: "(\<exists>c. GenericBSpline tValues points degree = Inr c)
      \<and> (\<exists>c. LoopingGenericBSpline loopingTValues points degree = Inr c)"
    if "0 < degree" and "nat degree < length points" and "length points < 2 ^ 29"
      and "length points + 2 * nat (degree - 1) \<le> length (tValues points 0 (degree - 1))"
      and "length points + 2 * nat (degree - 1) + 1
              \<le> length (loopingTValues points 0 (degree - 1))"
    using GenericBSpline_returns [where tValues = tValues, OF that(1-4)]
      LoopingGenericBSpline_returns [where tValues = loopingTValues, OF that(1-3,5)]
    by blast
  from fails succeeds show ?thesis by blast
qed

theorem construction_precondition_witness:
  "int (length [0, 1 :: real]) \<le> 2 \<and> (2 :: int) < 2 ^ 31
   \<and> GenericBSpline computeTValuesWithOuterPadding [0, 1 :: real] 2 = Inl AssertionFailed
   \<and> LoopingGenericBSpline computeLoopingTValues [0, 1 :: real] 2 = Inl AssertionFailed
   \<and> (0 :: int) < 2 \<and> nat 2 < length [0, 1, 3, 2 :: real] \<and> length [0, 1, 3, 2 :: real] < 2 ^ 29
   \<and> length [0, 1, 3, 2 :: real] + 2 * nat (2 - 1)
       \<le> length (computeTValuesWithOuterPadding [0, 1, 3, 2 :: real] 0 (2 - 1))
   \<and> length [0, 1, 3, 2 :: real] + 2 * nat (2 - 1) + 1
       \<le> length (computeLoopingTValues [0, 1, 3, 2 :: real] 0 (2 - 1))
   \<and> (\<exists>c. GenericBSpline computeTValuesWithOuterPadding [0, 1, 3, 2 :: real] 2 = Inr c)
   \<and> (\<exists>c. LoopingGenericBSpline computeLoopingTValues [0, 1, 3, 2 :: real] 2 = Inr c)"
proof -
  have h: "(0 :: int) < 2" "nat 2 < length [0, 1, 3, 2 :: real]"
    "length [0, 1, 3, 2 :: real] < 2 ^ 29"
    by simp_all
  have f: "int (length [0, 1 :: real]) \<le> 2" "(2 :: int) < 2 ^ 31"
    by simp_all
  show ?thesis
    using construction_precondition [where tValues = computeTValuesWithOuterPadding
        and loopingTValues = computeLoopingTValues and points = "[0, 1 :: real]" and degree = 2]
      construction_precondition [where tValues = computeTValuesWithOuterPadding
        and loopingTValues = computeLoopingTValues and points = "[0, 1, 3, 2 :: real]"
        and degree = 2]
      h f example_tables
    by simp
qed

section \<open>The queries agree on their shared components\<close>

text \<open>
  Claim C10. For every curve and every \<open>t\<close>, the position component of \<open>getTangent\<close>,
  \<open>getCurvature\<close> and \<open>getWiggle\<close> is the result of \<open>getPosition\<close>, the tangent component of
  \<open>getCurvature\<close> and \<open>getWiggle\<close> is that of \<open>getTangent\<close>, and the curvature component
  of \<open>getWiggle\<close> is that of \<open>getCurvature\<close>; a query fails exactly when \<open>getPosition\<close>
  fails, and with the same failure.
\<close>

theorem queries_share_components:
  fixes c :: "('v::real_vector) GenericBSplineCommon"
  shows "map_sum id position (getTangent gi c t) = getPosition gi c t
    \<and> map_sum id position (getCurvature gi c t) = getPosition gi c t
    \<and> map_sum id position (getWiggle gi c t) = getPosition gi c t
    \<and> map_sum id tangent (getCurvature gi c t) = map_sum id tangent (getTangent gi c t)
    \<and> map_sum id tangent (getWiggle gi c t) = map_sum id tangent (getTangent gi c t)
    \<and> map_sum id curvature (getWiggle gi c t) = map_sum id curvature (getCurvature gi c t)"
proof -
  let ?i = "segmentForT gi c t + of_int (splineDegree c - 1) + 1"
  show ?thesis
  proof (cases "computeDeboor c ?i (splineDegree c) t")
    case (Inl e)
    have "getPosition gi c t = Inl e"
      unfolding getPosition_def Let_def by (rule Inl)
    moreover have "getTangent gi c t = Inl e"
      unfolding getTangent_def Let_def by (simp only: Inl and_then_Inl)
    moreover have "getCurvature gi c t = Inl e"
      unfolding getCurvature_def Let_def by (simp only: Inl and_then_Inl)
    moreover have "getWiggle gi c t = Inl e"
      unfolding getWiggle_def Let_def by (simp only: Inl and_then_Inl)
    ultimately show ?thesis by simp
  next
    case (Inr p)
    obtain v1 where v1: "computeDeboorDerivative c ?i (splineDegree c) t 1 = Inr v1"
      using derivative_returns [OF Inr] by blast
    obtain v2 where v2: "computeDeboorDerivative c ?i (splineDegree c) t 2 = Inr v2"
      using derivative_returns [OF Inr] by blast
    obtain v3 where v3: "computeDeboorDerivative c ?i (splineDegree c) t 3 = Inr v3"
      using derivative_returns [OF Inr] by blast
    have "getPosition gi c t = Inr p"
      unfolding getPosition_def Let_def by (rule Inr)
    moreover have "getTangent gi c t = Inr \<lparr>position = p, tangent = v1\<rparr>"
      unfolding getTangent_def Let_def by (simp only: Inr v1 and_then_Inr)
    moreover have "getCurvature gi c t = Inr \<lparr>position = p, tangent = v1, curvature = v2\<rparr>"
      unfolding getCurvature_def Let_def by (simp only: Inr v1 v2 and_then_Inr)
    moreover have "getWiggle gi c t
        = Inr \<lparr>position = p, tangent = v1, curvature = v2, wiggle = v3\<rparr>"
      unfolding getWiggle_def Let_def by (simp only: Inr v1 v2 v3 and_then_Inr)
    ultimately show ?thesis by simp
  qed
qed

end
